theory Spec2Isabelle
  imports Complex_Main "HOL-Library.Log_Nat"
begin

text \<open>
  A shallow embedding of the scale reader (\<^verbatim>\<open>scale.c\<close>), of the stand-alone query
  program (\<^verbatim>\<open>test/query.c\<close>) and of the coffee-pot monitor (\<^verbatim>\<open>pot.c\<close>).

  Conventions of the model.
  \<^item> A C \<^verbatim>\<open>char\<close> is a \<^typ>\<open>char\<close>, a C string or byte buffer a \<^typ>\<open>string\<close>.
  \<^item> A C \<^verbatim>\<open>float\<close> is an IEEE binary32 value and a \<^verbatim>\<open>double\<close> a binary64 value:
    a signed rational magnitude that the format represents, an infinity or a NaN. Every
    conversion from text and every arithmetic operation rounds to nearest, ties to even.
    Where C leaves a conversion to \<^verbatim>\<open>int\<close> undefined the model returns \<^term>\<open>None\<close>.
  \<^item> The serial line is a function from the number of the query to the bytes the scale
    sends in answer; a stream that has no more bytes to deliver ends the scan, as
    end-of-file does on a \<^verbatim>\<open>FILE\<close>.
\<close>

section \<open>Characters of the scale protocol\<close>

definition LF :: char where "LF = CHR 0x0A"
definition CR :: char where "CR = CHR 0x0D"
definition ETX :: char where "ETX = CHR 0x03"

text \<open>\<^verbatim>\<open>isspace\<close> and \<^verbatim>\<open>isdigit\<close> of the C locale.\<close>

definition isspace :: "char \<Rightarrow> bool" where
  "isspace c \<longleftrightarrow>
     c = CHR 0x20 \<or> c = CHR 0x09 \<or> c = CHR 0x0A \<or> c = CHR 0x0B \<or> c = CHR 0x0C \<or> c = CHR 0x0D"

definition isdigit :: "char \<Rightarrow> bool" where
  "isdigit c \<longleftrightarrow> (48::nat) \<le> of_char c \<and> (of_char c :: nat) \<le> 57"

text \<open>The value of a run of decimal digits, most significant digit first.\<close>

definition digit_val :: "char \<Rightarrow> nat" where
  "digit_val c = of_char c - 48"

definition digits_val :: "string \<Rightarrow> nat" where
  "digits_val ds = foldl (\<lambda>a c. 10 * a + digit_val c) 0 ds"

section \<open>Floating-point values\<close>

text \<open>
  A value of type \<^verbatim>\<open>float\<close> or \<^verbatim>\<open>double\<close>: a finite number with its sign and its
  magnitude (so that the two zeros are distinct), an infinity with its sign, or a NaN.
\<close>

datatype cfloat = Finite bool rat | Infinite bool | NaN

text \<open>
  Rounding to nearest, ties to even, of a magnitude to a binary format with \<open>p\<close>
  significant bits and exponents from \<open>emin\<close> to \<open>emax\<close>. \<^term>\<open>ilog2 m\<close> is the exponent
  \<open>e\<close> with \<open>2\<^sup>e \<le> m < 2\<^sup>e\<^sup>+\<^sup>1\<close> of a positive \<open>m\<close>; below \<open>emin\<close> the spacing of the
  subnormal numbers applies; a result of at least \<open>2\<^bsup>emax+1\<^esup>\<close> overflows
  (\<^term>\<open>None\<close>).
\<close>

definition pow2 :: "int \<Rightarrow> rat" where
  "pow2 e = (if 0 \<le> e then 2 ^ nat e else 1 / 2 ^ nat (- e))"

definition ilog2 :: "rat \<Rightarrow> int" where
  "ilog2 m =
     (if 1 \<le> m then bitlen \<lfloor>m\<rfloor> - 1
      else (let j = bitlen \<lfloor>1 / m\<rfloor> - 1 in if m * pow2 j = 1 then - j else - j - 1))"

definition round_half_even :: "rat \<Rightarrow> int" where
  "round_half_even q =
     (let f = \<lfloor>q\<rfloor>; d = q - of_int f
      in if d < 1 / 2 then f else if 1 / 2 < d then f + 1 else if even f then f else f + 1)"

definition round_mag :: "nat \<Rightarrow> int \<Rightarrow> int \<Rightarrow> rat \<Rightarrow> rat option" where
  "round_mag p emin emax m =
     (if m = 0 then Some 0
      else (let e = max (ilog2 m) emin;
                ulp = pow2 (e - int p + 1);
                r = of_int (round_half_even (m / ulp)) * ulp
            in if pow2 (emax + 1) \<le> r then None else Some r))"

definition round_to :: "nat \<Rightarrow> int \<Rightarrow> int \<Rightarrow> cfloat \<Rightarrow> cfloat" where
  "round_to p emin emax x =
     (case x of
        Finite s m \<Rightarrow>
          (case round_mag p emin emax m of None \<Rightarrow> Infinite s | Some r \<Rightarrow> Finite s r)
      | Infinite s \<Rightarrow> Infinite s
      | NaN \<Rightarrow> NaN)"

text \<open>\<^verbatim>\<open>float\<close> is the binary32 format, \<^verbatim>\<open>double\<close> the binary64 format.\<close>

definition to_float :: "cfloat \<Rightarrow> cfloat" where
  "to_float = round_to 24 (- 126) 127"

definition to_double :: "cfloat \<Rightarrow> cfloat" where
  "to_double = round_to 53 (- 1022) 1023"

text \<open>
  Subtraction, multiplication and division of two \<^verbatim>\<open>float\<close> operands, each rounded to
  \<^verbatim>\<open>float\<close> (the operations are evaluated in the type of their operands, as they are on
  the ARM and x86-64 targets). An exact zero difference is negative only for
  \<open>(-0) - (+0)\<close>; the sign of a product or quotient is the exclusive or of the signs.
\<close>

definition fsub :: "cfloat \<Rightarrow> cfloat \<Rightarrow> cfloat" where
  "fsub a b =
     (case (a, b) of
        (NaN, _) \<Rightarrow> NaN
      | (_, NaN) \<Rightarrow> NaN
      | (Infinite s, Infinite t) \<Rightarrow> if s = t then NaN else Infinite s
      | (Infinite s, Finite t m) \<Rightarrow> Infinite s
      | (Finite s m, Infinite t) \<Rightarrow> Infinite (\<not> t)
      | (Finite s m, Finite t n) \<Rightarrow>
          (let v = (if s then - m else m) - (if t then - n else n)
           in if v = 0 then Finite (s \<and> \<not> t) 0 else to_float (Finite (v < 0) \<bar>v\<bar>)))"

definition fmul :: "cfloat \<Rightarrow> cfloat \<Rightarrow> cfloat" where
  "fmul a b =
     (case (a, b) of
        (NaN, _) \<Rightarrow> NaN
      | (_, NaN) \<Rightarrow> NaN
      | (Infinite s, Infinite t) \<Rightarrow> Infinite (s \<noteq> t)
      | (Infinite s, Finite t m) \<Rightarrow> if m = 0 then NaN else Infinite (s \<noteq> t)
      | (Finite s m, Infinite t) \<Rightarrow> if m = 0 then NaN else Infinite (s \<noteq> t)
      | (Finite s m, Finite t n) \<Rightarrow> to_float (Finite (s \<noteq> t) (m * n)))"

definition fdiv :: "cfloat \<Rightarrow> cfloat \<Rightarrow> cfloat" where
  "fdiv a b =
     (case (a, b) of
        (NaN, _) \<Rightarrow> NaN
      | (_, NaN) \<Rightarrow> NaN
      | (Infinite s, Infinite t) \<Rightarrow> NaN
      | (Infinite s, Finite t m) \<Rightarrow> Infinite (s \<noteq> t)
      | (Finite s m, Infinite t) \<Rightarrow> Finite (s \<noteq> t) 0
      | (Finite s m, Finite t n) \<Rightarrow>
          if n = 0 then (if m = 0 then NaN else Infinite (s \<noteq> t))
          else to_float (Finite (s \<noteq> t) (m / n)))"

text \<open>
  The conversion of a floating-point value to \<^verbatim>\<open>int\<close> discards the fraction (it truncates
  toward zero) and is undefined (\<^term>\<open>None\<close>) when the result does not fit 32 bits, and
  for an infinity or a NaN.
\<close>

definition c_float_to_int :: "cfloat \<Rightarrow> int option" where
  "c_float_to_int x =
     (case x of
        Finite s m \<Rightarrow>
          (let t = (if s then - \<lfloor>m\<rfloor> else \<lfloor>m\<rfloor>)
           in if - 2147483648 \<le> t \<and> t \<le> 2147483647 then Some t else None)
      | Infinite s \<Rightarrow> None
      | NaN \<Rightarrow> None)"

text \<open>
  The number a finite value stands for, and the rounding of a number to \<^verbatim>\<open>float\<close>,
  \<^term>\<open>None\<close> when the result overflows. On finite operands the three operations above
  compute the exact result and round it; the lemmas on single-precision arithmetic below
  say so.
\<close>

definition fval :: "cfloat \<Rightarrow> rat" where
  "fval x = (case x of Finite s m \<Rightarrow> if s then - m else m | Infinite s \<Rightarrow> 0 | NaN \<Rightarrow> 0)"

definition rnd32 :: "rat \<Rightarrow> rat option" where
  "rnd32 x =
     (case round_mag 24 (- 126) 127 \<bar>x\<bar> of
        None \<Rightarrow> None
      | Some r \<Rightarrow> Some (if x < 0 then - r else r))"


section \<open>The C library's number scanning\<close>

text \<open>
  The text \<^verbatim>\<open>strtod\<close> accepts (ISO C, 7.22.1.3) is an optional sign followed by one of:
  a decimal number (digits with an optional point, or a point followed by digits, then an
  optional exponent \<^verbatim>\<open>e\<close> or \<^verbatim>\<open>E\<close> with an optional sign and digits); a hexadecimal
  number (\<^verbatim>\<open>0x\<close> or \<^verbatim>\<open>0X\<close>, hexadecimal digits with an optional point, then an optional
  binary exponent \<^verbatim>\<open>p\<close> or \<^verbatim>\<open>P\<close> with an optional sign and decimal digits);
  \<^verbatim>\<open>inf\<close> or \<^verbatim>\<open>infinity\<close>; \<^verbatim>\<open>nan\<close>, or \<^verbatim>\<open>nan(\<close>, letters, digits and underscores,
  \<^verbatim>\<open>)\<close>; the words in any case.

  A scanner returns three things: the value of the longest initial sequence that is a
  number (\<^term>\<open>None\<close> when there is none), the input after that sequence, and the input after
  the input item of \<^verbatim>\<open>fscanf\<close>. \<^verbatim>\<open>fscanf\<close> reads as its input item the longest sequence
  of characters that is, or is a prefix of, a matching sequence, and only the first
  character after the item stays unread (ISO C, 7.21.6.2, paragraph 9): the item can be
  longer than the number (a number followed by an exponent letter without digits), and
  a sign with no digit behind it is consumed by a failed \<^verbatim>\<open>%f\<close> or \<^verbatim>\<open>%d\<close>.

  The scanners follow the text of the standard. C libraries depart from it on input
  items that are not numbers: the GNU C library converts an item that ends in an exponent
  letter without digits (it reads \<^verbatim>\<open>1e\<close> as 1), and its \<^verbatim>\<open>fscanf\<close> does not read the
  parenthesised part of \<^verbatim>\<open>nan(...)\<close>. \<^verbatim>\<open>strtod\<close> and \<^verbatim>\<open>strtof\<close> are not concerned,
  and no frame of the protocol contains such an item.
\<close>

definition isxdigit :: "char \<Rightarrow> bool" where
  "isxdigit c \<longleftrightarrow>
     (let n = (of_char c :: nat)
      in (48 \<le> n \<and> n \<le> 57) \<or> (65 \<le> n \<and> n \<le> 70) \<or> (97 \<le> n \<and> n \<le> 102))"

definition xdigit_val :: "char \<Rightarrow> nat" where
  "xdigit_val c =
     (let n = (of_char c :: nat)
      in if n \<le> 57 then n - 48 else if n \<le> 70 then n - 55 else n - 87)"

definition xdigits_val :: "string \<Rightarrow> nat" where
  "xdigits_val ds = foldl (\<lambda>a c. 16 * a + xdigit_val c) 0 ds"

definition tolower :: "char \<Rightarrow> char" where
  "tolower c =
     (let n = (of_char c :: nat) in if 65 \<le> n \<and> n \<le> 90 then char_of (n + 32) else c)"

text \<open>The characters allowed between the parentheses of \<^verbatim>\<open>nan(...)\<close>.\<close>

definition isnchar :: "char \<Rightarrow> bool" where
  "isnchar c \<longleftrightarrow>
     (let n = (of_char c :: nat)
      in (48 \<le> n \<and> n \<le> 57) \<or> (65 \<le> n \<and> n \<le> 90) \<or> (97 \<le> n \<and> n \<le> 122) \<or> n = 95)"

definition scan_sign :: "string \<Rightarrow> bool \<times> string" where
  "scan_sign s =
     (case s of
        [] \<Rightarrow> (False, [])
      | c # cs \<Rightarrow>
          if c = CHR ''-'' then (True, cs)
          else if c = CHR ''+'' then (False, cs)
          else (False, s))"

text \<open>
  An exponent introduced by one of two letters. \<^term>\<open>None\<close>: no exponent starts here.
  \<^term>\<open>Some (None, r)\<close>: the letter (and perhaps a sign) was read but no digit follows.
\<close>

definition scan_exp :: "char \<Rightarrow> char \<Rightarrow> string \<Rightarrow> (int option \<times> string) option" where
  "scan_exp lo up s =
     (case s of
        [] \<Rightarrow> None
      | c # cs \<Rightarrow>
          if c = lo \<or> c = up then
            (let (neg, r0) = scan_sign cs;
                 ds = takeWhile isdigit r0; r1 = dropWhile isdigit r0
             in if ds = [] then Some (None, r1)
                else Some (Some (if neg then - int (digits_val ds) else int (digits_val ds)), r1))
          else None)"

definition scale10 :: "rat \<Rightarrow> int \<Rightarrow> rat" where
  "scale10 v e = (if 0 \<le> e then v * 10 ^ nat e else v / 10 ^ nat (- e))"

text \<open>
  A mantissa in base 10 or 16: the digits before and after the point and the input after
  them. The point is consumed also when no digit follows it.
\<close>

definition scan_digits :: "(char \<Rightarrow> bool) \<Rightarrow> string \<Rightarrow> string \<times> string \<times> string" where
  "scan_digits isd s =
     (let ip = takeWhile isd s; r1 = dropWhile isd s
      in case r1 of
           [] \<Rightarrow> (ip, [], [])
         | c # cs \<Rightarrow>
             if c = CHR ''.'' then (ip, takeWhile isd cs, dropWhile isd cs)
             else (ip, [], r1))"

definition scan_dec :: "bool \<Rightarrow> string \<Rightarrow> cfloat option \<times> string \<times> string" where
  "scan_dec neg s =
     (let (ip, fp, r2) = scan_digits isdigit s
      in if ip = [] \<and> fp = [] then (None, s, r2)
         else (let m = of_nat (digits_val (ip @ fp)) / 10 ^ length fp
               in case scan_exp (CHR ''e'') (CHR ''E'') r2 of
                    None \<Rightarrow> (Some (Finite neg m), r2, r2)
                  | Some (None, r3) \<Rightarrow> (Some (Finite neg m), r2, r3)
                  | Some (Some e, r3) \<Rightarrow> (Some (Finite neg (scale10 m e)), r3, r3)))"

text \<open>The input after \<^verbatim>\<open>0x\<close>.\<close>

definition scan_hex :: "bool \<Rightarrow> string \<Rightarrow> cfloat option \<times> string \<times> string" where
  "scan_hex neg s =
     (let (ip, fp, r2) = scan_digits isxdigit s
      in if ip = [] \<and> fp = [] then (None, s, r2)
         else (let m = of_nat (xdigits_val (ip @ fp)) / 16 ^ length fp
               in case scan_exp (CHR ''p'') (CHR ''P'') r2 of
                    None \<Rightarrow> (Some (Finite neg m), r2, r2)
                  | Some (None, r3) \<Rightarrow> (Some (Finite neg m), r2, r3)
                  | Some (Some e, r3) \<Rightarrow> (Some (Finite neg (m * pow2 e)), r3, r3)))"

text \<open>How many characters of a lower-case word the input starts with, in any case.\<close>

fun match_word :: "string \<Rightarrow> string \<Rightarrow> nat" where
  "match_word [] inp = 0"
| "match_word (w # ws) [] = 0"
| "match_word (w # ws) (c # cs) = (if tolower c = w then Suc (match_word ws cs) else 0)"

definition scan_inf :: "bool \<Rightarrow> string \<Rightarrow> cfloat option \<times> string \<times> string" where
  "scan_inf neg s =
     (let k = match_word ''infinity'' s
      in if k = 8 then (Some (Infinite neg), drop 8 s, drop 8 s)
         else if 3 \<le> k then (Some (Infinite neg), drop 3 s, drop k s)
         else (None, s, drop k s))"

definition scan_nan :: "string \<Rightarrow> cfloat option \<times> string \<times> string" where
  "scan_nan s =
     (let k = match_word ''nan'' s
      in if k < 3 then (None, s, drop k s)
         else (let r = drop 3 s
               in case r of
                    [] \<Rightarrow> (Some NaN, r, r)
                  | c # cs \<Rightarrow>
                      if c = CHR ''('' then
                        (case dropWhile isnchar cs of
                           [] \<Rightarrow> (Some NaN, r, [])
                         | d # ds \<Rightarrow>
                             if d = CHR '')'' then (Some NaN, ds, ds)
                             else (Some NaN, r, d # ds))
                      else (Some NaN, r, r)))"

text \<open>
  The number at the start of the input. \<^verbatim>\<open>0x\<close> without a hexadecimal digit behind it is
  the number \<^verbatim>\<open>0\<close> for \<^verbatim>\<open>strtod\<close> and a failed item for \<^verbatim>\<open>fscanf\<close>.
\<close>

definition is_hex_prefix :: "string \<Rightarrow> bool" where
  "is_hex_prefix s =
     (case s of
        c0 # c1 # cs \<Rightarrow> c0 = CHR ''0'' \<and> (c1 = CHR ''x'' \<or> c1 = CHR ''X'')
      | _ \<Rightarrow> False)"

definition scan_number :: "string \<Rightarrow> cfloat option \<times> string \<times> string" where
  "scan_number s =
     (let (neg, r0) = scan_sign s
      in if is_hex_prefix r0 then
           (case scan_hex neg (drop 2 r0) of
              (None, rm, ri) \<Rightarrow> (Some (Finite neg 0), drop 1 r0, ri)
            | (Some v, rm, ri) \<Rightarrow> (Some v, rm, ri))
         else if match_word ''i'' r0 = 1 then scan_inf neg r0
         else if match_word ''n'' r0 = 1 then scan_nan r0
         else scan_dec neg r0)"

text \<open>
  The conversion \<^verbatim>\<open>%f\<close> of \<^verbatim>\<open>fscanf\<close>: white space is skipped, then the input item is
  read; it is converted, to a \<^verbatim>\<open>float\<close>, when it is a number, that is when it ends where
  the longest number ends; otherwise the conversion fails and the item is gone.
\<close>

definition scanf_f :: "string \<Rightarrow> cfloat option \<times> string" where
  "scanf_f inp =
     (case scan_number (dropWhile isspace inp) of
        (None, rm, ri) \<Rightarrow> (None, ri)
      | (Some v, rm, ri) \<Rightarrow>
          if length rm = length ri then (Some (to_float v), ri) else (None, ri))"

text \<open>
  The conversion \<^verbatim>\<open>%d\<close>. The value is the mathematical integer; a value outside
  \<^verbatim>\<open>int\<close> is undefined in C, and \<^verbatim>\<open>scale_read\<close> never reads the variable it is stored in.
\<close>

definition scanf_d :: "string \<Rightarrow> int option \<times> string" where
  "scanf_d inp =
     (let (neg, r0) = scan_sign (dropWhile isspace inp);
          ds = takeWhile isdigit r0; r1 = dropWhile isdigit r0
      in if ds = [] then (None, r1)
         else (Some (if neg then - int (digits_val ds) else int (digits_val ds)), r1))"

text \<open>
  \<^verbatim>\<open>strtod\<close> and \<^verbatim>\<open>strtof\<close>: the value of the longest initial number, rounded to
  \<^verbatim>\<open>double\<close> or to \<^verbatim>\<open>float\<close>, and the count of characters up to \<^verbatim>\<open>endptr\<close>, leading
  white space included. Without a number the value is 0 and \<^verbatim>\<open>endptr\<close> is the start of
  the string.
\<close>

definition c_strtod :: "string \<Rightarrow> cfloat \<times> nat" where
  "c_strtod s =
     (case scan_number (dropWhile isspace s) of
        (None, rm, ri) \<Rightarrow> (Finite False 0, 0)
      | (Some v, rm, ri) \<Rightarrow> (to_double v, length s - length rm))"

definition c_strtof :: "string \<Rightarrow> cfloat \<times> nat" where
  "c_strtof s =
     (case scan_number (dropWhile isspace s) of
        (None, rm, ri) \<Rightarrow> (Finite False 0, 0)
      | (Some v, rm, ri) \<Rightarrow> (to_float v, length s - length rm))"

section \<open>\<^verbatim>\<open>fscanf\<close> on the formats of \<^verbatim>\<open>scale.c\<close>\<close>

text \<open>
  A format is a list of directives: \<^term>\<open>WS\<close> for a white-space character of the format
  (it matches any amount of white space in the input, also none), \<^term>\<open>Lit\<close> for an
  ordinary character (it must be the next input character, otherwise the scan stops and
  the character stays unread), and the two conversions. \<^term>\<open>fscanf\<close> returns the values
  assigned, in the order of the format, and the input left unread; the number
  \<^verbatim>\<open>fscanf\<close> returns in C is the length of that list when it is positive (a C result of
  0 and one of \<^verbatim>\<open>EOF\<close> both appear as the empty list: \<^verbatim>\<open>scale_read\<close> compares the
  result with 2 or with 1 only).
\<close>

datatype directive = WS | Lit char | ConvF | ConvD

datatype arg = FloatArg cfloat | IntArg int

fun fscanf :: "directive list \<Rightarrow> string \<Rightarrow> arg list \<times> string" where
  "fscanf [] inp = ([], inp)"
| "fscanf (WS # ds) inp = fscanf ds (dropWhile isspace inp)"
| "fscanf (Lit c # ds) inp =
     (case inp of
        [] \<Rightarrow> ([], [])
      | x # xs \<Rightarrow> if x = c then fscanf ds xs else ([], inp))"
| "fscanf (ConvF # ds) inp =
     (case scanf_f inp of
        (None, rest) \<Rightarrow> ([], rest)
      | (Some v, rest) \<Rightarrow> (let (as, r) = fscanf ds rest in (FloatArg v # as, r)))"
| "fscanf (ConvD # ds) inp =
     (case scanf_d inp of
        (None, rest) \<Rightarrow> ([], rest)
      | (Some i, rest) \<Rightarrow> (let (as, r) = fscanf ds rest in (IntArg i # as, r)))"

text \<open>
  The five formats of \<^verbatim>\<open>scale_read\<close>:
  \<^verbatim>\<open>"\n%fLB\r\nS%d\r\003"\<close>,
  \<^verbatim>\<open>"\n^^^^^^\r\nS%d\r\003"\<close>, \<^verbatim>\<open>"\n______\r\nS%d\r\003"\<close>, \<^verbatim>\<open>"\n------\r\nS%d\r\003"\<close>
  (the three differ in the fill character only) and \<^verbatim>\<open>"\nS%d\r\003"\<close>.
\<close>

definition fmt_value :: "directive list" where
  "fmt_value = [WS, ConvF, Lit (CHR ''L''), Lit (CHR ''B''), WS, WS, Lit (CHR ''S''), ConvD, WS, Lit ETX]"

definition fmt_fill :: "char \<Rightarrow> directive list" where
  "fmt_fill c = [WS, Lit c, Lit c, Lit c, Lit c, Lit c, Lit c, WS, WS, Lit (CHR ''S''), ConvD, WS, Lit ETX]"

definition fmt_status :: "directive list" where
  "fmt_status = [WS, Lit (CHR ''S''), ConvD, WS, Lit ETX]"

text \<open>
  \<^verbatim>\<open>fscanf (...) == 2\<close> on the first format: both \<^verbatim>\<open>weight\<close> and \<^verbatim>\<open>status\<close> were
  assigned. \<^verbatim>\<open>fscanf (...) == 1\<close> on the others: \<^verbatim>\<open>status\<close> was assigned.
\<close>

fun two_items :: "arg list \<Rightarrow> (cfloat \<times> int) option" where
  "two_items [FloatArg w, IntArg st] = Some (w, st)"
| "two_items _ = None"

fun one_item :: "arg list \<Rightarrow> int option" where
  "one_item [IntArg st] = Some st"
| "one_item _ = None"

section \<open>\<^verbatim>\<open>scale_read\<close>\<close>

text \<open>
  The state \<^verbatim>\<open>scale_read\<close> works on: the bytes of the stream not yet consumed, the number
  of queries \<^verbatim>\<open>"W\r"\<close> written so far, the caller's variable \<^verbatim>\<open>*wp\<close> with a count of
  the stores made to it, and \<^verbatim>\<open>errno\<close>. \<^term>\<open>EIO\<close> stands for whatever code the library
  sets when \<^verbatim>\<open>fputs\<close> fails.

  The scale is a \<^typ>\<open>nat \<Rightarrow> string option\<close>: the bytes it sends in answer to query number
  \<open>k\<close> (counted from 0), or \<^term>\<open>None\<close> when writing that query fails.
\<close>

datatype errno = ERANGE | EDOM | EPROTO | EIO

record io =
  unread :: string
  sent :: nat
  wp :: cfloat
  wp_stores :: nat
  errno :: "errno option"

type_synonym transport = "nat \<Rightarrow> string option"

text \<open>
  One pass through the body of \<^verbatim>\<open>scale_read\<close>, from the label \<^verbatim>\<open>again\<close> on:
  \<^term>\<open>Inl (rc, s)\<close> is a return with result \<open>rc\<close>, \<^term>\<open>Inr s\<close> is \<^verbatim>\<open>goto again\<close>.
  Every \<^verbatim>\<open>fscanf\<close> continues on the bytes the one before it left unread.
\<close>

definition scale_read_pass :: "transport \<Rightarrow> io \<Rightarrow> (int \<times> io) + io" where
  "scale_read_pass dev s =
     (case dev (sent s) of
        None \<Rightarrow> Inl (- 1, s\<lparr>errno := Some EIO\<rparr>)
      | Some resp \<Rightarrow>
          (let s0 = s\<lparr>unread := unread s @ resp, sent := Suc (sent s)\<rparr>;
               (a1, r1) = fscanf fmt_value (unread s0)
           in case two_items a1 of
                Some (weight, status) \<Rightarrow>
                  Inl (0, s0\<lparr>unread := r1, wp := weight, wp_stores := Suc (wp_stores s0)\<rparr>)
              | None \<Rightarrow>
                 (let (a2, r2) = fscanf (fmt_fill (CHR ''^'')) r1
                  in case one_item a2 of
                       Some status \<Rightarrow> Inl (- 1, s0\<lparr>unread := r2, errno := Some ERANGE\<rparr>)
                     | None \<Rightarrow>
                        (let (a3, r3) = fscanf (fmt_fill (CHR ''_'')) r2
                         in case one_item a3 of
                              Some status \<Rightarrow> Inl (- 1, s0\<lparr>unread := r3, errno := Some ERANGE\<rparr>)
                            | None \<Rightarrow>
                               (let (a4, r4) = fscanf (fmt_fill (CHR ''-'')) r3
                                in case one_item a4 of
                                     Some status \<Rightarrow> Inl (- 1, s0\<lparr>unread := r4, errno := Some EDOM\<rparr>)
                                   | None \<Rightarrow>
                                      (let (a5, r5) = fscanf fmt_status r4
                                       in case one_item a5 of
                                            Some status \<Rightarrow> Inr (s0\<lparr>unread := r5\<rparr>)
                                          | None \<Rightarrow> Inl (- 1, s0\<lparr>unread := r5, errno := Some EPROTO\<rparr>)))))))"

text \<open>
  The loop of \<^verbatim>\<open>goto again\<close>. \<^term>\<open>scale_read dev s = None\<close> means that the call never
  returns.
\<close>

partial_function (option) scale_read :: "transport \<Rightarrow> io \<Rightarrow> (int \<times> io) option" where
  "scale_read dev s =
     (case scale_read_pass dev s of
        Inl r \<Rightarrow> Some r
      | Inr s' \<Rightarrow> scale_read dev s')"

text \<open>
  The state in which pass number \<open>n\<close> of a call starts: \<open>n\<close> passes have ended in
  \<^verbatim>\<open>goto again\<close>. It is \<^term>\<open>None\<close> when an earlier pass returned.
\<close>

fun retries :: "transport \<Rightarrow> nat \<Rightarrow> io \<Rightarrow> io option" where
  "retries dev 0 s = Some s"
| "retries dev (Suc n) s =
     (case scale_read_pass dev s of
        Inl r \<Rightarrow> None
      | Inr s' \<Rightarrow> retries dev n s')"

section \<open>The query program, \<^verbatim>\<open>test/query.c\<close>\<close>

text \<open>
  \<^verbatim>\<open>parse_status\<close> interprets six bytes. The result is the message and \<^verbatim>\<open>rc\<close> it
  stores, or \<^term>\<open>None\<close> where the C function returns -1.
\<close>

definition parse_status :: "string \<Rightarrow> (string \<times> int) option" where
  "parse_status buf =
     (if buf ! 0 \<noteq> LF \<or> buf ! 1 \<noteq> CHR ''S'' \<or> buf ! 4 \<noteq> CR \<or> buf ! 5 \<noteq> ETX then None
      else if buf ! 2 = CHR ''0'' \<and> buf ! 3 = CHR ''0'' then Some (''OK'', 0)
      else if buf ! 2 = CHR ''1'' \<and> buf ! 3 = CHR ''0'' then Some (''Weight not stable'', - 1)
      else if buf ! 2 = CHR ''2'' \<and> buf ! 3 = CHR ''0'' then Some (''Zero'', 0)
      else if buf ! 2 = CHR ''0'' \<and> buf ! 3 = CHR ''1'' then Some (''Under capacity'', - 1)
      else if buf ! 2 = CHR ''0'' \<and> buf ! 3 = CHR ''2'' then Some (''Over capacity'', - 1)
      else if buf ! 2 = CHR ''1'' \<and> buf ! 3 = CHR ''1'' then Some (''Under capacity'', - 1)
      else None)"

text \<open>
  \<^verbatim>\<open>parse_value\<close> interprets ten bytes: \<^verbatim>\<open>strtod\<close> starts at \<^verbatim>\<open>buf[1]\<close> and must stop
  at \<^verbatim>\<open>buf[7]\<close>, that is after six characters.
\<close>

definition parse_value :: "string \<Rightarrow> cfloat option" where
  "parse_value buf =
     (if buf ! 0 \<noteq> LF \<or> buf ! 7 \<noteq> CHR ''L'' \<or> buf ! 8 \<noteq> CHR ''B'' \<or> buf ! 9 \<noteq> CR then None
      else (let (weight, consumed) = c_strtod (drop 1 buf)
            in if int consumed + 1 \<noteq> 7 then None else Some weight))"

text \<open>
  What \<^verbatim>\<open>main\<close> does with the \<^verbatim>\<open>len\<close> bytes that \<^verbatim>\<open>read_response\<close> put into
  \<^verbatim>\<open>buf\<close>: one constructor for each message it prints.
\<close>

datatype query_result =
    Unexpected_response nat
  | Status_parse_error
  | Scale_error string
  | Value_not_returned
  | Value_parse_error
  | Weight_printed cfloat

definition main_decode :: "string \<Rightarrow> query_result" where
  "main_decode buf =
     (let len = length buf
      in if len \<noteq> 6 \<and> len \<noteq> 16 then Unexpected_response len
         else (let status = (if len = 6 then buf else drop 10 buf)
               in case parse_status status of
                    None \<Rightarrow> Status_parse_error
                  | Some (errmsg, rc) \<Rightarrow>
                      if rc < 0 then Scale_error errmsg
                      else if len \<noteq> 16 then Value_not_returned
                      else (case parse_value buf of
                              None \<Rightarrow> Value_parse_error
                            | Some weight \<Rightarrow> Weight_printed weight)))"

section \<open>The pot monitor, \<^verbatim>\<open>pot.c\<close>\<close>

text \<open>
  \<^verbatim>\<open>pot_t\<close>. The field \<^verbatim>\<open>scale\<close> is the open stream; the type of streams is a parameter.
\<close>

record 'h pot =
  name :: string
  scaledev :: string
  scale :: 'h
  full_lbs :: cfloat
  empty_lbs :: cfloat
  pct :: int
  pct_err :: int

text \<open>
  The configuration is the table \<^verbatim>\<open>zhash_load\<close> fills. \<^verbatim>\<open>msg_exit\<close> and \<^verbatim>\<open>err_exit\<close>
  end the process: they are the errors of \<^verbatim>\<open>pot_init\<close>.
\<close>

datatype init_error =
    Load_failed
  | Undefined_key string
  | Int_conv_undefined
  | Scale_init_failed string

definition get_conf_str :: "(string \<rightharpoonup> string) \<Rightarrow> string \<Rightarrow> init_error + string" where
  "get_conf_str conf key =
     (case conf key of None \<Rightarrow> Inl (Undefined_key key) | Some s \<Rightarrow> Inr s)"

definition get_conf_num :: "(string \<rightharpoonup> string) \<Rightarrow> string \<Rightarrow> init_error + cfloat" where
  "get_conf_num conf key =
     (case conf key of None \<Rightarrow> Inl (Undefined_key key) | Some s \<Rightarrow> Inr (fst (c_strtof s)))"

text \<open>
  \<^verbatim>\<open>pot_init\<close>, with the two calls that leave the program as parameters: \<^verbatim>\<open>zhash_load\<close>
  (the table read from the file, or \<^term>\<open>None\<close>) and \<^verbatim>\<open>scale_init\<close> (the open stream, or
  \<^term>\<open>None\<close>). \<^verbatim>\<open>xzmalloc\<close> returns zeroed memory, so \<^verbatim>\<open>pct\<close> starts at 0.
\<close>

definition pot_init ::
  "(string \<Rightarrow> (string \<rightharpoonup> string) option) \<Rightarrow> (string \<Rightarrow> 'h option) \<Rightarrow> string \<Rightarrow> init_error + 'h pot"
where
  "pot_init zhash_load scale_init filename =
     (case zhash_load filename of
        None \<Rightarrow> Inl Load_failed
      | Some conf \<Rightarrow>
     (case get_conf_str conf ''name'' of
        Inl e \<Rightarrow> Inl e
      | Inr nm \<Rightarrow>
     (case get_conf_str conf ''scale_device'' of
        Inl e \<Rightarrow> Inl e
      | Inr dev \<Rightarrow>
     (case get_conf_num conf ''full_lbs'' of
        Inl e \<Rightarrow> Inl e
      | Inr full \<Rightarrow>
     (case get_conf_num conf ''empty_lbs'' of
        Inl e \<Rightarrow> Inl e
      | Inr empt \<Rightarrow>
     (case get_conf_num conf ''pct_err'' of
        Inl e \<Rightarrow> Inl e
      | Inr perr \<Rightarrow>
     (case c_float_to_int perr of
        None \<Rightarrow> Inl Int_conv_undefined
      | Some err \<Rightarrow>
     (case scale_init dev of
        None \<Rightarrow> Inl (Scale_init_failed dev)
      | Some fp \<Rightarrow>
          Inr \<lparr>name = nm, scaledev = dev, scale = fp, full_lbs = full, empty_lbs = empt,
               pct = 0, pct_err = err\<rparr>))))))))"

text \<open>
  \<^verbatim>\<open>pot_update\<close>: the message logged, if any, and the pot with the new percentage.
\<close>

datatype message = Off | On int

definition pot_update :: "'h pot \<Rightarrow> int \<Rightarrow> message option \<times> 'h pot" where
  "pot_update pot p =
     ((if p < 0 \<and> pct pot \<ge> 0 then Some Off
       else if p \<ge> 0 \<and> pct pot \<le> 0 then Some (On p)
       else None),
      pot\<lparr>pct := p\<rparr>)"

text \<open>
  The percentage \<^verbatim>\<open>pot_checker\<close> computes from a reading:
  \<^verbatim>\<open>pct = 100 * (lbs - pot->empty_lbs) / (pot->full_lbs - pot->empty_lbs)\<close>. The
  \<^verbatim>\<open>int\<close> 100 becomes the \<^verbatim>\<open>float\<close> 100; the product and the two differences are
  \<^verbatim>\<open>float\<close> operations, and the \<^verbatim>\<open>float\<close> quotient is assigned to an \<^verbatim>\<open>int\<close>.
\<close>

definition checker_pct :: "'h pot \<Rightarrow> cfloat \<Rightarrow> int option" where
  "checker_pct pot lbs =
     c_float_to_int
       (fdiv (fmul (Finite False 100) (fsub lbs (empty_lbs pot)))
             (fsub (full_lbs pot) (empty_lbs pot)))"

section \<open>Frames of the protocol\<close>

text \<open>
  The responses of the scale: the status trailer \<^verbatim>\<open>S\<close>, two status characters, CR, ETX;
  a status-only frame (6 bytes); a value frame, with the digits before and after the
  point given (16 bytes when they are five together); and the frames whose value field is
  six times one fill character.
\<close>

definition trailer :: "char \<Rightarrow> char \<Rightarrow> string" where
  "trailer d1 d2 = [CHR ''S'', d1, d2, CR, ETX]"

definition status_frame :: "char \<Rightarrow> char \<Rightarrow> string" where
  "status_frame d1 d2 = LF # trailer d1 d2"

definition value_frame :: "string \<Rightarrow> string \<Rightarrow> char \<Rightarrow> char \<Rightarrow> string" where
  "value_frame ip fp d1 d2 =
     LF # ip @ CHR ''.'' # fp @ [CHR ''L'', CHR ''B'', CR, LF] @ trailer d1 d2"

definition fill_frame :: "char \<Rightarrow> char \<Rightarrow> char \<Rightarrow> string" where
  "fill_frame c d1 d2 = [LF, c, c, c, c, c, c, CR, LF] @ trailer d1 d2"

text \<open>
  A 16-byte frame whose field is a number cut short: digits around a point, a space, and
  any characters up to the width of six.
\<close>

definition partial_frame :: "string \<Rightarrow> string \<Rightarrow> string \<Rightarrow> char \<Rightarrow> char \<Rightarrow> string" where
  "partial_frame ip fp pad d1 d2 =
     LF # ip @ CHR ''.'' # fp @ CHR '' '' # pad @ [CHR ''L'', CHR ''B'', CR, LF] @ trailer d1 d2"

text \<open>The number a value field denotes.\<close>

definition field_value :: "string \<Rightarrow> string \<Rightarrow> rat" where
  "field_value ip fp = of_nat (digits_val (ip @ fp)) / 10 ^ length fp"

section \<open>Example data\<close>

text \<open>
  A fresh state of the reader, and scales for the examples below: one that reports
  ``weight not stable'' for ever; one that does so twice and then sends \<^verbatim>\<open>05.120\<close>;
  one that answers a status-only frame with code \<^verbatim>\<open>01\<close> first; one that sends the value
  with status \<^verbatim>\<open>10\<close>; one whose numeric field is nine characters long; one over capacity;
  one that reports a zeroing error first; and one whose frame has seven fill characters
  \<^verbatim>\<open>-\<close> instead of six.
\<close>

definition io0 :: io where
  "io0 = \<lparr>unread = [], sent = 0, wp = Finite False 0, wp_stores = 0, errno = None\<rparr>"

definition in_motion_forever :: transport where
  "in_motion_forever k = Some (status_frame (CHR ''1'') (CHR ''0''))"

definition in_motion_twice :: transport where
  "in_motion_twice k =
     (if k < 2 then Some (status_frame (CHR ''1'') (CHR ''0''))
      else Some (value_frame ''05'' ''120'' (CHR ''0'') (CHR ''0'')))"

definition under_status_then_value :: transport where
  "under_status_then_value k =
     (if k = 0 then Some (status_frame (CHR ''0'') (CHR ''1''))
      else Some (value_frame ''05'' ''120'' (CHR ''0'') (CHR ''0'')))"

definition unstable_value :: transport where
  "unstable_value k = Some (value_frame ''05'' ''120'' (CHR ''1'') (CHR ''0''))"

definition long_field :: transport where
  "long_field k = Some (value_frame ''0005'' ''1200'' (CHR ''0'') (CHR ''0''))"

definition over_capacity :: transport where
  "over_capacity k = Some (fill_frame (CHR ''^'') (CHR ''0'') (CHR ''2''))"

definition zero_then_value :: transport where
  "zero_then_value k = (if k = 0 then Some (fill_frame (CHR ''-'') (CHR ''0'') (CHR ''0''))
      else Some (value_frame ''05'' ''120'' (CHR ''0'') (CHR ''0'')))"

definition seven_dashes :: transport where
  "seven_dashes k =
     Some (LF # CHR ''-'' # CHR ''-'' # CHR ''-'' # CHR ''-'' # CHR ''-'' # CHR ''-'' # CHR ''-''
             # CR # LF # trailer (CHR ''0'') (CHR ''0''))"

text \<open>
  A 16-byte frame whose numeric field is only partly a number: \<^verbatim>\<open>05.1 0\<close>.
\<close>

definition partial_field_frame :: string where
  "partial_field_frame = LF # ''05.1 0LB'' @ [CR, LF] @ trailer (CHR ''0'') (CHR ''0'')"

text \<open>
  A 16-byte frame whose field is the hexadecimal number \<^verbatim>\<open>0x1p+1\<close>, that is 2.
\<close>

definition hex_field_frame :: string where
  "hex_field_frame = LF # ''0x1p+1LB'' @ [CR, LF] @ trailer (CHR ''0'') (CHR ''0'')"

text \<open>
  A pot with thresholds 0 and 10 pounds and tolerance 5, at a given percentage; a complete
  configuration whose \<^verbatim>\<open>full_lbs\<close> is below its \<^verbatim>\<open>empty_lbs\<close>, and one without
  \<^verbatim>\<open>pct_err\<close>; a scale device that opens.
\<close>

definition demo_pot :: "int \<Rightarrow> unit pot" where
  "demo_pot p = \<lparr>name = ''pot'', scaledev = ''/dev/ttyUSB0'', scale = (), full_lbs = Finite False 10,
                  empty_lbs = Finite False 0, pct = p, pct_err = 5\<rparr>"

definition demo_conf :: "string \<rightharpoonup> string" where
  "demo_conf = [''name'' \<mapsto> ''pot'', ''scale_device'' \<mapsto> ''/dev/ttyUSB0'',
                ''full_lbs'' \<mapsto> ''5'', ''empty_lbs'' \<mapsto> ''10'', ''pct_err'' \<mapsto> ''5'']"

definition demo_load :: "string \<Rightarrow> (string \<rightharpoonup> string) option" where
  "demo_load filename = Some demo_conf"

definition demo_scale_init :: "string \<Rightarrow> unit option" where
  "demo_scale_init devname = Some ()"

definition demo_conf_incomplete :: "string \<rightharpoonup> string" where
  "demo_conf_incomplete = [''name'' \<mapsto> ''pot'', ''scale_device'' \<mapsto> ''/dev/ttyUSB0'',
                ''full_lbs'' \<mapsto> ''5'', ''empty_lbs'' \<mapsto> ''10'']"

definition demo_load_incomplete :: "string \<Rightarrow> (string \<rightharpoonup> string) option" where
  "demo_load_incomplete filename = Some demo_conf_incomplete"

text \<open>
  The specification's percentage bucket, following its words ``the percentage bucket
  (rounded to the configured \<^verbatim>\<open>pct_err\<close> tolerance)'': the multiple of the tolerance
  nearest to the percentage. \<^verbatim>\<open>pot.c\<close> has no counterpart of it.
\<close>

definition spec_bucket :: "int \<Rightarrow> int \<Rightarrow> int" where
  "spec_bucket err p = (if err \<le> 0 then p else ((2 * p + err) div (2 * err)) * err)"

section \<open>Scanning the frames\<close>

subsection \<open>Characters\<close>

lemma digit_facts:
  "isdigit c \<Longrightarrow> \<not> isspace c"
  "isdigit c \<Longrightarrow> c \<noteq> CHR ''-''"
  "isdigit c \<Longrightarrow> c \<noteq> CHR ''+''"
  "isdigit c \<Longrightarrow> c \<noteq> CHR ''.''"
  by (auto simp: isdigit_def isspace_def)

lemma nondigit_facts:
  "\<not> isdigit CR" "\<not> isdigit LF" "\<not> isdigit ETX" "\<not> isdigit (CHR ''L'')" "\<not> isdigit (CHR ''S'')"
  "\<not> isdigit (CHR ''.'')" "\<not> isdigit (CHR ''-'')" "\<not> isdigit (CHR ''^'')" "\<not> isdigit (CHR ''_'')"
  by (simp_all add: isdigit_def CR_def LF_def ETX_def)

lemma space_facts:
  "isspace CR" "isspace LF" "\<not> isspace ETX" "\<not> isspace (CHR ''S'')" "\<not> isspace (CHR ''L'')"
  "\<not> isspace (CHR ''-'')" "\<not> isspace (CHR ''^'')" "\<not> isspace (CHR ''_'')"
  by (simp_all add: isspace_def CR_def LF_def ETX_def)

lemma char_facts:
  "CR \<noteq> ETX" "LF \<noteq> ETX" "CR \<noteq> CHR ''S''" "CR \<noteq> CHR ''-''" "CR \<noteq> CHR ''+''"
  "CR \<noteq> CHR ''e''" "CR \<noteq> CHR ''E''" "CR \<noteq> CHR ''.''" "CR \<noteq> CHR ''^''" "CR \<noteq> CHR ''_''"
  by (simp_all add: CR_def LF_def ETX_def)

lemma digit_not_word:
  "isdigit c \<Longrightarrow> c \<noteq> CHR ''x''"
  "isdigit c \<Longrightarrow> c \<noteq> CHR ''X''"
  "isdigit c \<Longrightarrow> tolower c = c"
  "isdigit c \<Longrightarrow> c \<noteq> CHR ''i''"
  "isdigit c \<Longrightarrow> c \<noteq> CHR ''n''"
  by (auto simp: isdigit_def tolower_def)

lemma tolower_fill:
  "tolower (CHR ''S'') = CHR ''s''" "tolower (CHR ''-'') = CHR ''-''"
  "tolower (CHR ''^'') = CHR ''^''" "tolower (CHR ''_'') = CHR ''_''"
  by code_simp+

lemmas chars = digit_facts nondigit_facts space_facts char_facts digit_not_word tolower_fill

lemma digit_chars:
  "isdigit (CHR ''0'')" "isdigit (CHR ''1'')" "isdigit (CHR ''2'')" "isdigit (CHR ''5'')"
  by (simp_all add: isdigit_def)

subsection \<open>The status trailer and the numeric field\<close>

lemma scanf_d_status:
  assumes "isdigit d1" "isdigit d2"
  shows "scanf_d (d1 # d2 # CR # rest) = (Some (int (digits_val [d1, d2])), CR # rest)"
  using assms by (simp add: scanf_d_def scan_sign_def chars)

lemma fscanf_trailer:
  assumes "isdigit d1" "isdigit d2"
  shows "fscanf [Lit (CHR ''S''), ConvD, WS, Lit ETX] (trailer d1 d2)
           = ([IntArg (int (digits_val [d1, d2]))], [])"
  using assms by (simp add: trailer_def scanf_d_status chars)

lemma not_hex_prefix:
  assumes "\<forall>c\<in>set ip. isdigit c" "ip \<noteq> []"
  shows "\<not> is_hex_prefix (ip @ CHR ''.'' # rest)"
proof (cases ip)
  case Nil
  with assms(2) show ?thesis by simp
next
  case (Cons a ip')
  show ?thesis
  proof (cases ip')
    case Nil
    with Cons show ?thesis by (simp add: is_hex_prefix_def)
  next
    case (Cons b ip'')
    with \<open>ip = a # ip'\<close> assms(1) have "isdigit b" by simp
    with Cons \<open>ip = a # ip'\<close> show ?thesis by (simp add: is_hex_prefix_def chars)
  qed
qed

lemma scan_number_field:
  assumes "\<forall>c\<in>set ip. isdigit c" "\<forall>c\<in>set fp. isdigit c" "ip \<noteq> []"
    and "\<not> isdigit t" "t \<noteq> CHR ''e''" "t \<noteq> CHR ''E''"
  shows "scan_number (ip @ CHR ''.'' # fp @ t # rest)
           = (Some (Finite False (field_value ip fp)), t # rest, t # rest)"
proof -
  let ?inp = "ip @ CHR ''.'' # fp @ t # rest"
  obtain a ip' where ip: "ip = a # ip'" using assms(3) by (cases ip) auto
  have a: "isdigit a" using assms(1) ip by simp
  have sg: "scan_sign ?inp = (False, ?inp)"
    using a ip by (simp add: scan_sign_def chars)
  have hx: "\<not> is_hex_prefix ?inp"
    using not_hex_prefix [OF assms(1,3)] .
  have wi: "match_word ''i'' ?inp = 0" "match_word ''n'' ?inp = 0"
    using a ip by (simp_all add: chars)
  have t1: "takeWhile isdigit ?inp = ip"
    using assms(1) by (simp add: takeWhile_tail chars assms(4))
  have d1: "dropWhile isdigit ?inp = CHR ''.'' # fp @ t # rest"
    using assms(1) by (simp add: dropWhile_append3 chars assms(4))
  have t2: "takeWhile isdigit (fp @ t # rest) = fp"
    using assms(2) by (simp add: takeWhile_tail chars assms(4))
  have d2: "dropWhile isdigit (fp @ t # rest) = t # rest"
    using assms(2) by (simp add: dropWhile_append3 chars assms(4))
  have dg: "scan_digits isdigit ?inp = (ip, fp, t # rest)"
    by (simp add: scan_digits_def t1 d1 t2 d2)
  have ex: "scan_exp (CHR ''e'') (CHR ''E'') (t # rest) = None"
    using assms(5,6) by (simp add: scan_exp_def)
  have dc: "scan_dec False ?inp
      = (Some (Finite False (field_value ip fp)), t # rest, t # rest)"
    using assms(3) by (simp add: scan_dec_def dg ex field_value_def)
  show ?thesis
    using hx by (simp add: scan_number_def sg wi dc)
qed

lemma field_not_space:
  assumes "\<forall>c\<in>set ip. isdigit c" "ip \<noteq> []"
  shows "dropWhile isspace (ip @ rest) = ip @ rest"
  using assms by (cases ip) (simp_all add: chars)

lemma scanf_f_field:
  assumes "\<forall>c\<in>set ip. isdigit c" "\<forall>c\<in>set fp. isdigit c" "ip \<noteq> []"
  shows "scanf_f (ip @ CHR ''.'' # fp @ CHR ''L'' # rest)
           = (Some (to_float (Finite False (field_value ip fp))), CHR ''L'' # rest)"
  by (simp add: scanf_f_def field_not_space [OF assms(1,3)]
      scan_number_field [OF assms, where t = "CHR ''L''"] chars)

lemma strtod_field:
  assumes "\<forall>c\<in>set ip. isdigit c" "\<forall>c\<in>set fp. isdigit c" "ip \<noteq> []"
  shows "c_strtod (ip @ CHR ''.'' # fp @ CHR ''L'' # rest)
           = (to_double (Finite False (field_value ip fp)), length ip + 1 + length fp)"
  by (simp add: c_strtod_def field_not_space [OF assms(1,3)]
      scan_number_field [OF assms, where t = "CHR ''L''"] chars)

lemma strtod_field_space:
  assumes "\<forall>c\<in>set ip. isdigit c" "\<forall>c\<in>set fp. isdigit c" "ip \<noteq> []"
  shows "c_strtod (ip @ CHR ''.'' # fp @ CHR '' '' # rest)
           = (to_double (Finite False (field_value ip fp)), length ip + 1 + length fp)"
  by (simp add: c_strtod_def field_not_space [OF assms(1,3)]
      scan_number_field [OF assms, where t = "CHR '' ''"] isdigit_def)

lemma field_05_120: "field_value ''05'' ''120'' = 128 / 25" "field_value ''0005'' ''1200'' = 128 / 25"
  by (simp_all add: field_value_def digits_val_def digit_val_def)

lemma float_05_120: "to_float (Finite False (128 / 25)) = Finite False (5368709 / 1048576)"
  by code_simp

lemma double_05_120:
  "to_double (Finite False (128 / 25)) = Finite False (5764607523034235 / 1125899906842624)"
  by code_simp

lemma strtof_5: "c_strtof ''5'' = (Finite False 5, 1)" "c_strtof ''10'' = (Finite False 10, 2)"
  by code_simp+

lemma strtod_partial:
  "c_strtod (drop 1 partial_field_frame) = (Finite False (2871044762448691 / 562949953421312), 4)"
  by code_simp

subsection \<open>The formats on each kind of frame\<close>

lemma fscanf_value_prefix:
  assumes "\<forall>c\<in>set ip. isdigit c" "\<forall>c\<in>set fp. isdigit c" "ip \<noteq> []"
  shows "fscanf (WS # ConvF # Lit (CHR ''L'') # Lit (CHR ''B'') # WS # WS # ds)
           (LF # ip @ CHR ''.'' # fp @ CHR ''L'' # CHR ''B'' # CR # LF # CHR ''S'' # t)
         = (case fscanf ds (CHR ''S'' # t) of (as, r) \<Rightarrow> (FloatArg (to_float (Finite False (field_value ip fp))) # as, r))"
proof -
  have 1: "dropWhile isspace (ip @ CHR ''.'' # fp @ CHR ''L'' # CHR ''B'' # CR # LF # CHR ''S'' # t)
         = ip @ CHR ''.'' # fp @ CHR ''L'' # CHR ''B'' # CR # LF # CHR ''S'' # t"
    using assms(1,3) by (cases ip) (simp_all add: chars)
  show ?thesis
    by (simp add: 1 scanf_f_field [OF assms] chars)
qed

lemma fscanf_value_frame:
  assumes "\<forall>c\<in>set ip. isdigit c" "\<forall>c\<in>set fp. isdigit c" "ip \<noteq> []" "isdigit d1" "isdigit d2"
  shows "fscanf fmt_value (value_frame ip fp d1 d2)
           = ([FloatArg (to_float (Finite False (field_value ip fp))), IntArg (int (digits_val [d1, d2]))], [])"
proof -
  have "fscanf fmt_value (value_frame ip fp d1 d2)
        = (case fscanf [Lit (CHR ''S''), ConvD, WS, Lit ETX] (trailer d1 d2) of
             (as, r) \<Rightarrow> (FloatArg (to_float (Finite False (field_value ip fp))) # as, r))"
    unfolding fmt_value_def value_frame_def trailer_def append.simps
    by (rule fscanf_value_prefix [OF assms(1-3)])
  then show ?thesis
    by (simp only: fscanf_trailer [OF assms(4,5)] prod.case)
qed

lemma fscanf_value_on_status:
  "fscanf fmt_value (status_frame d1 d2) = ([], trailer d1 d2)"
  by (simp add: fmt_value_def status_frame_def trailer_def scanf_f_def scan_number_def is_hex_prefix_def scan_sign_def scan_dec_def scan_digits_def chars)

lemma fscanf_fill_on_trailer:
  "c \<noteq> CHR ''S'' \<Longrightarrow> \<not> isspace c \<Longrightarrow> fscanf (fmt_fill c) (trailer d1 d2) = ([], trailer d1 d2)"
  by (auto simp add: fmt_fill_def trailer_def chars)

lemma fscanf_status_on_trailer:
  assumes "isdigit d1" "isdigit d2"
  shows "fscanf fmt_status (trailer d1 d2) = ([IntArg (int (digits_val [d1, d2]))], [])"
  using fscanf_trailer [OF assms] by (simp add: fmt_status_def trailer_def chars)

lemma fscanf_fill_match:
  assumes "isdigit d1" "isdigit d2" "\<not> isspace c"
  shows "fscanf (fmt_fill c) (c # c # c # c # c # c # CR # LF # trailer d1 d2)
           = ([IntArg (int (digits_val [d1, d2]))], [])"
  using assms fscanf_trailer [OF assms(1,2)]
  by (simp add: fmt_fill_def trailer_def chars)

lemma fscanf_fill_mismatch:
  assumes "c \<noteq> x" "\<not> isspace x"
  shows "fscanf (fmt_fill c) (x # rest) = ([], x # rest)"
  using assms by (auto simp add: fmt_fill_def)

lemma fscanf_value_on_over:
  "fscanf fmt_value (fill_frame (CHR ''^'') d1 d2)
     = ([], CHR ''^'' # CHR ''^'' # CHR ''^'' # CHR ''^'' # CHR ''^'' # CHR ''^'' # CR # LF # trailer d1 d2)"
  by (simp add: fmt_value_def fill_frame_def scanf_f_def scan_number_def is_hex_prefix_def scan_sign_def scan_dec_def scan_digits_def chars)

lemma fscanf_value_on_under:
  "fscanf fmt_value (fill_frame (CHR ''_'') d1 d2)
     = ([], CHR ''_'' # CHR ''_'' # CHR ''_'' # CHR ''_'' # CHR ''_'' # CHR ''_'' # CR # LF # trailer d1 d2)"
  by (simp add: fmt_value_def fill_frame_def scanf_f_def scan_number_def is_hex_prefix_def scan_sign_def scan_dec_def scan_digits_def chars)

text \<open>
  On a zeroing-error frame the conversion \<^verbatim>\<open>%f\<close> of the first format reads the first
  \<^verbatim>\<open>-\<close> as a sign, finds no digit and fails; five of the six fill characters are left.
  The format of the zeroing error then fails at its sixth \<^verbatim>\<open>-\<close>, and the status-only
  format matches what remains.
\<close>

lemma fscanf_value_on_zero:
  "fscanf fmt_value (fill_frame (CHR ''-'') d1 d2)
     = ([], CHR ''-'' # CHR ''-'' # CHR ''-'' # CHR ''-'' # CHR ''-'' # CR # LF # trailer d1 d2)"
  by (simp add: fmt_value_def fill_frame_def scanf_f_def scan_number_def is_hex_prefix_def scan_sign_def scan_dec_def scan_digits_def chars)

lemma fscanf_zero_on_five:
  "fscanf (fmt_fill (CHR ''-'')) (CHR ''-'' # CHR ''-'' # CHR ''-'' # CHR ''-'' # CHR ''-'' # CR # LF # trailer d1 d2)
     = ([], CR # LF # trailer d1 d2)"
  by (simp add: fmt_fill_def chars)

lemma fscanf_status_after_zero:
  assumes "isdigit d1" "isdigit d2"
  shows "fscanf fmt_status (CR # LF # trailer d1 d2) = ([IntArg (int (digits_val [d1, d2]))], [])"
  using fscanf_trailer [OF assms] by (simp add: fmt_status_def trailer_def chars)

lemma fscanf_value_on_seven_dashes:
  "fscanf fmt_value (LF # CHR ''-'' # CHR ''-'' # CHR ''-'' # CHR ''-'' # CHR ''-'' # CHR ''-'' # CHR ''-''
             # CR # LF # trailer d1 d2)
     = ([], CHR ''-'' # CHR ''-'' # CHR ''-'' # CHR ''-'' # CHR ''-'' # CHR ''-'' # CR # LF # trailer d1 d2)"
  by (simp add: fmt_value_def scanf_f_def scan_number_def is_hex_prefix_def scan_sign_def scan_dec_def scan_digits_def chars)

subsection \<open>One pass of \<^verbatim>\<open>scale_read\<close>\<close>

lemma pass_value_frame:
  assumes "\<forall>c\<in>set ip. isdigit c" "\<forall>c\<in>set fp. isdigit c" "ip \<noteq> []" "isdigit d1" "isdigit d2"
    and "dev (sent s) = Some (value_frame ip fp d1 d2)" "unread s = []"
  shows "scale_read_pass dev s
           = Inl (0, s\<lparr>unread := [], sent := Suc (sent s), wp := to_float (Finite False (field_value ip fp)),
                       wp_stores := Suc (wp_stores s)\<rparr>)"
  using assms(6,7) by (simp add: scale_read_pass_def fscanf_value_frame [OF assms(1-5)])

lemma pass_status_frame:
  assumes "isdigit d1" "isdigit d2"
    and "dev (sent s) = Some (status_frame d1 d2)" "unread s = []"
  shows "scale_read_pass dev s = Inr (s\<lparr>unread := [], sent := Suc (sent s)\<rparr>)"
  using assms(3,4)
  by (simp add: scale_read_pass_def fscanf_value_on_status fscanf_fill_on_trailer
      fscanf_status_on_trailer [OF assms(1,2)] chars)

lemma pass_over_frame:
  assumes "isdigit d1" "isdigit d2"
    and "dev (sent s) = Some (fill_frame (CHR ''^'') d1 d2)" "unread s = []"
  shows "scale_read_pass dev s
           = Inl (- 1, s\<lparr>unread := [], sent := Suc (sent s), errno := Some ERANGE\<rparr>)"
  using assms(3,4)
  by (simp add: scale_read_pass_def fscanf_value_on_over
      fscanf_fill_match [OF assms(1,2)] chars)

lemma pass_under_frame:
  assumes "isdigit d1" "isdigit d2"
    and "dev (sent s) = Some (fill_frame (CHR ''_'') d1 d2)" "unread s = []"
  shows "scale_read_pass dev s
           = Inl (- 1, s\<lparr>unread := [], sent := Suc (sent s), errno := Some ERANGE\<rparr>)"
  using assms(3,4)
  by (simp add: scale_read_pass_def fscanf_value_on_under fscanf_fill_mismatch
      fscanf_fill_match [OF assms(1,2)] chars)

lemma pass_zero_frame:
  assumes "isdigit d1" "isdigit d2"
    and "dev (sent s) = Some (fill_frame (CHR ''-'') d1 d2)" "unread s = []"
  shows "scale_read_pass dev s = Inr (s\<lparr>unread := [], sent := Suc (sent s)\<rparr>)"
  using assms(3,4)
  by (simp add: scale_read_pass_def fscanf_value_on_zero fscanf_fill_mismatch
      fscanf_zero_on_five fscanf_status_after_zero [OF assms(1,2)] chars)

lemma two_items_Some: "two_items a = Some (w, st) \<Longrightarrow> a = [FloatArg w, IntArg st]"
  by (erule two_items.elims) simp_all

lemma pass_return:
  assumes "scale_read_pass dev s = Inl (rc, s')"
  shows "(rc = - 1 \<and> wp s' = wp s \<and> wp_stores s' = wp_stores s)
       \<or> (rc = 0 \<and> wp_stores s' = Suc (wp_stores s) \<and> sent s' = Suc (sent s)
            \<and> (\<exists>resp st. dev (sent s) = Some resp
                 \<and> fscanf fmt_value (unread s @ resp) = ([FloatArg (wp s'), IntArg st], unread s')))"
proof (cases "dev (sent s)")
  case None
  with assms show ?thesis by (auto simp: scale_read_pass_def)
next
  case (Some resp)
  obtain a1 r1 where f: "fscanf fmt_value (unread s @ resp) = (a1, r1)" by force
  show ?thesis
  proof (cases "two_items a1")
    case None
    with assms Some f show ?thesis
      by (auto simp: scale_read_pass_def Let_def split: option.splits prod.splits)
  next
    case (Some ws)
    obtain w st where ws: "ws = (w, st)" by force
    have a1: "a1 = [FloatArg w, IntArg st]" using Some ws two_items_Some by simp
    from assms \<open>dev (sent s) = Some resp\<close> f Some ws a1 show ?thesis
      by (auto simp: scale_read_pass_def Let_def)
  qed
qed

lemma pass_again:
  assumes "scale_read_pass dev s = Inr s'"
  shows "wp s' = wp s \<and> wp_stores s' = wp_stores s"
  using assms by (auto simp: scale_read_pass_def Let_def split: option.splits prod.splits)

subsection \<open>The loop\<close>

lemma read_value_frame:
  assumes "\<forall>c\<in>set ip. isdigit c" "\<forall>c\<in>set fp. isdigit c" "ip \<noteq> []" "isdigit d1" "isdigit d2"
    and "dev (sent s) = Some (value_frame ip fp d1 d2)" "unread s = []"
  shows "scale_read dev s
           = Some (0, s\<lparr>unread := [], sent := Suc (sent s), wp := to_float (Finite False (field_value ip fp)),
                        wp_stores := Suc (wp_stores s)\<rparr>)"
  by (subst scale_read.simps) (simp add: pass_value_frame [where dev = dev and s = s, OF assms])

lemma read_status_frame:
  assumes "isdigit d1" "isdigit d2"
    and "dev (sent s) = Some (status_frame d1 d2)" "unread s = []"
  shows "scale_read dev s = scale_read dev (s\<lparr>unread := [], sent := Suc (sent s)\<rparr>)"
  by (subst scale_read.simps) (simp add: pass_status_frame [where dev = dev and s = s, OF assms])

lemma read_over_frame:
  assumes "isdigit d1" "isdigit d2"
    and "dev (sent s) = Some (fill_frame (CHR ''^'') d1 d2)" "unread s = []"
  shows "scale_read dev s
           = Some (- 1, s\<lparr>unread := [], sent := Suc (sent s), errno := Some ERANGE\<rparr>)"
  by (subst scale_read.simps) (simp add: pass_over_frame [where dev = dev and s = s, OF assms])

lemma read_under_frame:
  assumes "isdigit d1" "isdigit d2"
    and "dev (sent s) = Some (fill_frame (CHR ''_'') d1 d2)" "unread s = []"
  shows "scale_read dev s
           = Some (- 1, s\<lparr>unread := [], sent := Suc (sent s), errno := Some ERANGE\<rparr>)"
  by (subst scale_read.simps) (simp add: pass_under_frame [where dev = dev and s = s, OF assms])

lemma read_zero_frame:
  assumes "isdigit d1" "isdigit d2"
    and "dev (sent s) = Some (fill_frame (CHR ''-'') d1 d2)" "unread s = []"
  shows "scale_read dev s = scale_read dev (s\<lparr>unread := [], sent := Suc (sent s)\<rparr>)"
  by (subst scale_read.simps) (simp add: pass_zero_frame [where dev = dev and s = s, OF assms])

lemma read_after_status_frames:
  assumes "\<forall>c\<in>set ip. isdigit c" "\<forall>c\<in>set fp. isdigit c" "ip \<noteq> []" "isdigit e1" "isdigit e2"
  shows "\<lbrakk>\<forall>k<n. \<exists>d1 d2. isdigit d1 \<and> isdigit d2 \<and> dev (sent s + k) = Some (status_frame d1 d2);
          dev (sent s + n) = Some (value_frame ip fp e1 e2); unread s = []\<rbrakk>
         \<Longrightarrow> scale_read dev s
           = Some (0, s\<lparr>unread := [], sent := sent s + n + 1, wp := to_float (Finite False (field_value ip fp)),
                        wp_stores := Suc (wp_stores s)\<rparr>)"
proof (induction n arbitrary: s)
  case 0
  then show ?case using read_value_frame [where dev = dev and s = s, OF assms] by simp
next
  case (Suc n)
  let ?s = "s\<lparr>unread := [], sent := Suc (sent s)\<rparr>"
  have "0 < Suc n" by simp
  with Suc.prems(1) have "\<exists>d1 d2. isdigit d1 \<and> isdigit d2 \<and> dev (sent s + 0) = Some (status_frame d1 d2)"
    by blast
  then obtain d1 d2 where d: "isdigit d1" "isdigit d2" "dev (sent s) = Some (status_frame d1 d2)"
    by auto
  have step: "scale_read dev s = scale_read dev ?s"
    using read_status_frame [where dev = dev and s = s, OF d Suc.prems(3)] .
  have "\<forall>k<n. \<exists>d1 d2. isdigit d1 \<and> isdigit d2 \<and> dev (sent ?s + k) = Some (status_frame d1 d2)"
  proof (intro allI impI)
    fix k assume "k < n"
    then have "Suc k < Suc n" by simp
    with Suc.prems(1)
    have "\<exists>d1 d2. isdigit d1 \<and> isdigit d2 \<and> dev (sent s + Suc k) = Some (status_frame d1 d2)"
      by blast
    then show "\<exists>d1 d2. isdigit d1 \<and> isdigit d2 \<and> dev (sent ?s + k) = Some (status_frame d1 d2)"
      by simp
  qed
  moreover have "dev (sent ?s + n) = Some (value_frame ip fp e1 e2)"
    using Suc.prems(2) by simp
  ultimately have "scale_read dev ?s
           = Some (0, ?s\<lparr>unread := [], sent := sent ?s + n + 1, wp := to_float (Finite False (field_value ip fp)),
                        wp_stores := Suc (wp_stores ?s)\<rparr>)"
    by (intro Suc.IH) simp_all
  then show ?case using step by simp
qed

lemma read_returns_not_status_forever:
  "scale_read dev s = Some y \<Longrightarrow>
     (\<forall>k. \<exists>d1 d2. isdigit d1 \<and> isdigit d2 \<and> dev k = Some (status_frame d1 d2)) \<longrightarrow> unread s \<noteq> []"
proof (induction rule: scale_read.raw_induct [rotated 1, consumes 1])
  case (1 rd dev s y)
  show ?case
  proof (intro impI notI)
    assume a: "\<forall>k. \<exists>d1 d2. isdigit d1 \<and> isdigit d2 \<and> dev k = Some (status_frame d1 d2)"
      and u: "unread s = []"
    obtain d1 d2 where d: "isdigit d1" "isdigit d2" "dev (sent s) = Some (status_frame d1 d2)"
      using a by blast
    have "scale_read_pass dev s = Inr (s\<lparr>unread := [], sent := Suc (sent s)\<rparr>)"
      using pass_status_frame [where dev = dev and s = s, OF d u] .
    with 1(2) have "rd dev (s\<lparr>unread := [], sent := Suc (sent s)\<rparr>) = Some y" by simp
    from 1(1) [OF this, THEN mp, OF a] show False by simp
  qed
qed

lemma read_never_returns:
  assumes "\<forall>k. \<exists>d1 d2. isdigit d1 \<and> isdigit d2 \<and> dev k = Some (status_frame d1 d2)"
    and "unread s = []"
  shows "scale_read dev s = None"
proof (cases "scale_read dev s")
  case None
  then show ?thesis .
next
  case (Some y)
  from read_returns_not_status_forever [OF Some, THEN mp, OF assms(1)] assms(2) show ?thesis by simp
qed

lemma read_frame:
  "scale_read dev s = Some y \<Longrightarrow>
     \<exists>n t. retries dev n s = Some t \<and> scale_read_pass dev t = Inl y
        \<and> wp t = wp s \<and> wp_stores t = wp_stores s"
proof (induction rule: scale_read.raw_induct [rotated 1, consumes 1])
  case (1 rd dev s y)
  show ?case
  proof (cases "scale_read_pass dev s")
    case (Inl r)
    with 1(2) have "scale_read_pass dev s = Inl y" by simp
    then have "retries dev 0 s = Some s \<and> scale_read_pass dev s = Inl y
        \<and> wp s = wp s \<and> wp_stores s = wp_stores s"
      by simp
    then show ?thesis by blast
  next
    case (Inr s1)
    with 1(2) have "rd dev s1 = Some y" by simp
    from 1(1) [OF this] obtain n t where t: "retries dev n s1 = Some t"
        "scale_read_pass dev t = Inl y" "wp t = wp s1" "wp_stores t = wp_stores s1"
      by blast
    have "retries dev (Suc n) s = Some t" using Inr t(1) by simp
    moreover have "wp t = wp s" "wp_stores t = wp_stores s"
      using t(3,4) pass_again [OF Inr] by simp_all
    ultimately show ?thesis using t(2) by blast
  qed
qed

lemma read_under_status_then_value:
  "scale_read under_status_then_value io0
     = Some (0, \<lparr>unread = [], sent = 2, wp = Finite False (5368709 / 1048576), wp_stores = 1, errno = None\<rparr>)"
proof -
  have 1: "scale_read under_status_then_value io0
         = scale_read under_status_then_value (io0\<lparr>unread := [], sent := Suc (sent io0)\<rparr>)"
    by (rule read_status_frame [where ?d1.0 = "CHR ''0''" and ?d2.0 = "CHR ''1''"])
       (simp_all add: digit_chars under_status_then_value_def io0_def)
  have 2: "scale_read under_status_then_value (io0\<lparr>unread := [], sent := Suc (sent io0)\<rparr>)
         = Some (0, \<lparr>unread = [], sent = 2, wp = Finite False (5368709 / 1048576), wp_stores = 1, errno = None\<rparr>)"
    using read_value_frame [where dev = under_status_then_value
        and s = "io0\<lparr>unread := [], sent := Suc (sent io0)\<rparr>"
        and ip = "''05''" and fp = "''120''" and ?d1.0 = "CHR ''0''" and ?d2.0 = "CHR ''0''"]
    by (simp add: digit_chars under_status_then_value_def io0_def field_05_120 float_05_120)
  show ?thesis using 1 2 by simp
qed

section \<open>The query program on the frames\<close>

lemma parse_status_frame:
  "parse_status (status_frame d1 d2) =
     (if d1 = CHR ''0'' \<and> d2 = CHR ''0'' then Some (''OK'', 0)
      else if d1 = CHR ''1'' \<and> d2 = CHR ''0'' then Some (''Weight not stable'', - 1)
      else if d1 = CHR ''2'' \<and> d2 = CHR ''0'' then Some (''Zero'', 0)
      else if d1 = CHR ''0'' \<and> d2 = CHR ''1'' then Some (''Under capacity'', - 1)
      else if d1 = CHR ''0'' \<and> d2 = CHR ''2'' then Some (''Over capacity'', - 1)
      else if d1 = CHR ''1'' \<and> d2 = CHR ''1'' then Some (''Under capacity'', - 1)
      else None)"
  by (simp add: parse_status_def status_frame_def trailer_def)

lemma list6: "length xs = 6 \<Longrightarrow> \<exists>a b c d e f. xs = [a, b, c, d, e, f]"
  by (simp add: eval_nat_numeral length_Suc_conv) blast

lemma value_frame_parts:
  assumes "length ip + length fp = 5"
  shows "length (value_frame ip fp d1 d2) = 16"
    and "drop 10 (value_frame ip fp d1 d2) = status_frame d1 d2"
    and "value_frame ip fp d1 d2 ! 0 = LF"
    and "value_frame ip fp d1 d2 ! 7 = CHR ''L''"
    and "value_frame ip fp d1 d2 ! 8 = CHR ''B''"
    and "value_frame ip fp d1 d2 ! 9 = CR"
    and "drop (Suc 0) (value_frame ip fp d1 d2)
           = ip @ CHR ''.'' # fp @ CHR ''L'' # [CHR ''B'', CR, LF] @ trailer d1 d2"
proof -
  have l: "length (ip @ CHR ''.'' # fp) = 6" using assms by simp
  obtain a b c d e f where fld: "ip @ CHR ''.'' # fp = [a, b, c, d, e, f]"
    using list6 [OF l] by blast
  have vf: "value_frame ip fp d1 d2 = LF # (ip @ CHR ''.'' # fp) @ [CHR ''L'', CHR ''B'', CR, LF] @ trailer d1 d2"
    by (simp add: value_frame_def)
  show "length (value_frame ip fp d1 d2) = 16" using assms by (simp add: value_frame_def trailer_def)
  show "drop 10 (value_frame ip fp d1 d2) = status_frame d1 d2"
    unfolding vf fld by (simp add: status_frame_def)
  show "value_frame ip fp d1 d2 ! 0 = LF" by (simp add: value_frame_def)
  show "value_frame ip fp d1 d2 ! 7 = CHR ''L''" unfolding vf fld by simp
  show "value_frame ip fp d1 d2 ! 8 = CHR ''B''" unfolding vf fld by simp
  show "value_frame ip fp d1 d2 ! 9 = CR" unfolding vf fld by simp
  show "drop (Suc 0) (value_frame ip fp d1 d2)
           = ip @ CHR ''.'' # fp @ CHR ''L'' # [CHR ''B'', CR, LF] @ trailer d1 d2"
    by (simp add: value_frame_def)
qed

lemma parse_value_frame:
  assumes "\<forall>c\<in>set ip. isdigit c" "\<forall>c\<in>set fp. isdigit c" "ip \<noteq> []" "length ip + length fp = 5"
  shows "parse_value (value_frame ip fp d1 d2) = Some (to_double (Finite False (field_value ip fp)))"
  using assms(4)
  by (simp add: parse_value_def value_frame_parts [OF assms(4)] strtod_field [OF assms(1-3)])

lemma main_decode_value_frame:
  assumes "\<forall>c\<in>set ip. isdigit c" "\<forall>c\<in>set fp. isdigit c" "ip \<noteq> []" "length ip + length fp = 5"
  shows "main_decode (value_frame ip fp d1 d2) =
     (if (d1 = CHR ''0'' \<or> d1 = CHR ''2'') \<and> d2 = CHR ''0'' then Weight_printed (to_double (Finite False (field_value ip fp)))
      else if d1 = CHR ''1'' \<and> d2 = CHR ''0'' then Scale_error ''Weight not stable''
      else if d1 = CHR ''0'' \<and> d2 = CHR ''1'' then Scale_error ''Under capacity''
      else if d1 = CHR ''0'' \<and> d2 = CHR ''2'' then Scale_error ''Over capacity''
      else if d1 = CHR ''1'' \<and> d2 = CHR ''1'' then Scale_error ''Under capacity''
      else Status_parse_error)"
  by (simp add: main_decode_def value_frame_parts(1,2) [OF assms(4)] parse_status_frame
      parse_value_frame [OF assms])

lemma parse_value_width:
  "parse_value buf = Some w \<longleftrightarrow>
     buf ! 0 = LF \<and> buf ! 7 = CHR ''L'' \<and> buf ! 8 = CHR ''B'' \<and> buf ! 9 = CR
     \<and> c_strtod (drop 1 buf) = (w, 6)"
  by (auto simp: parse_value_def split: prod.splits)

lemma main_decode_printed:
  assumes "main_decode buf = Weight_printed w"
  shows "c_strtod (drop 1 buf) = (w, 6)"
  using assms
  by (auto simp: main_decode_def parse_value_def Let_def
      split: if_splits option.splits prod.splits)

lemma partial_frame_parts:
  assumes "length ip + length fp + length pad = 4"
  shows "length (partial_frame ip fp pad d1 d2) = 16"
    and "drop 10 (partial_frame ip fp pad d1 d2) = status_frame d1 d2"
    and "partial_frame ip fp pad d1 d2 ! 0 = LF"
    and "partial_frame ip fp pad d1 d2 ! 7 = CHR ''L''"
    and "partial_frame ip fp pad d1 d2 ! 8 = CHR ''B''"
    and "partial_frame ip fp pad d1 d2 ! 9 = CR"
    and "drop (Suc 0) (partial_frame ip fp pad d1 d2)
           = ip @ CHR ''.'' # fp @ CHR '' '' # pad @ [CHR ''L'', CHR ''B'', CR, LF] @ trailer d1 d2"
proof -
  have l: "length (ip @ CHR ''.'' # fp @ CHR '' '' # pad) = 6" using assms by simp
  obtain a b c d e f where fld: "ip @ CHR ''.'' # fp @ CHR '' '' # pad = [a, b, c, d, e, f]"
    using list6 [OF l] by blast
  have vf: "partial_frame ip fp pad d1 d2
      = LF # (ip @ CHR ''.'' # fp @ CHR '' '' # pad) @ [CHR ''L'', CHR ''B'', CR, LF] @ trailer d1 d2"
    by (simp add: partial_frame_def)
  show "length (partial_frame ip fp pad d1 d2) = 16"
    using assms by (simp add: partial_frame_def trailer_def)
  show "drop 10 (partial_frame ip fp pad d1 d2) = status_frame d1 d2"
    unfolding vf fld by (simp add: status_frame_def)
  show "partial_frame ip fp pad d1 d2 ! 0 = LF" by (simp add: partial_frame_def)
  show "partial_frame ip fp pad d1 d2 ! 7 = CHR ''L''" unfolding vf fld by simp
  show "partial_frame ip fp pad d1 d2 ! 8 = CHR ''B''" unfolding vf fld by simp
  show "partial_frame ip fp pad d1 d2 ! 9 = CR" unfolding vf fld by simp
  show "drop (Suc 0) (partial_frame ip fp pad d1 d2)
           = ip @ CHR ''.'' # fp @ CHR '' '' # pad @ [CHR ''L'', CHR ''B'', CR, LF] @ trailer d1 d2"
    by (simp add: partial_frame_def)
qed

lemma main_decode_partial_frame:
  assumes "(\<forall>c\<in>set ip. isdigit c) \<and> (\<forall>c\<in>set fp. isdigit c) \<and> ip \<noteq> []
        \<and> length ip + length fp + length pad = 4"
  shows "main_decode (partial_frame ip fp pad (CHR ''0'') (CHR ''0'')) = Value_parse_error"
proof -
  have a: "\<forall>c\<in>set ip. isdigit c" "\<forall>c\<in>set fp. isdigit c" "ip \<noteq> []"
      "length ip + length fp + length pad = 4"
    using assms by simp_all
  have "length ip + 1 + length fp \<noteq> 6" using a(4) by simp
  then have pv: "parse_value (partial_frame ip fp pad (CHR ''0'') (CHR ''0'')) = None"
    by (simp add: parse_value_def partial_frame_parts [OF a(4)] strtod_field_space [OF a(1-3)])
  show ?thesis
    by (simp add: main_decode_def partial_frame_parts(1,2) [OF a(4)] parse_status_frame pv)
qed

lemma main_decode_hex_frame:
  "main_decode hex_field_frame = Weight_printed (Finite False 2)"
  by code_simp

lemma main_decode_width:
  assumes "snd (c_strtod (drop 1 buf)) \<noteq> 6"
  shows "parse_value buf = None \<and> (\<forall>v. main_decode buf \<noteq> Weight_printed v)"
proof -
  have pv: "parse_value buf = None"
    using assms by (auto simp: parse_value_def split: prod.splits)
  have "main_decode buf \<noteq> Weight_printed v" for v
    by (auto simp: main_decode_def pv Let_def split: option.splits)
  with pv show ?thesis by simp
qed

section \<open>Single-precision arithmetic and the conversion to \<^verbatim>\<open>int\<close>\<close>

text \<open>
  \<^term>\<open>ilog2\<close> is the binary exponent of a positive number.
\<close>

lemma pow2_powi: "pow2 e = power_int 2 e"
  by (simp add: pow2_def power_int_def inverse_eq_divide power_one_over)

lemma pow2_add: "pow2 (a + b) = pow2 a * pow2 b"
  by (simp add: pow2_powi power_int_add)

lemma pow2_nat: "0 \<le> g \<Longrightarrow> pow2 g = of_int (2 ^ nat g)"
  by (simp add: pow2_def)

lemma pow2_le_1: "e \<le> 0 \<Longrightarrow> pow2 e \<le> 1"
  by (simp add: pow2_def)

lemma pow2_neg: "0 \<le> j \<Longrightarrow> pow2 (- j) = 1 / 2 ^ nat j"
proof (cases "j = 0")
  case True
  then show ?thesis by (simp add: pow2_def)
next
  case False
  assume "0 \<le> j"
  with False have "0 < j" by simp
  then show ?thesis by (simp add: pow2_def)
qed

lemma ilog2_bounds:
  assumes "0 < m"
  shows "pow2 (ilog2 m) \<le> m \<and> m < pow2 (ilog2 m + 1)"
proof (cases "1 \<le> m")
  case True
  define n where "n = \<lfloor>m\<rfloor>"
  have n: "0 < n" using True by (simp add: n_def)
  from bitlen_bounds [OF n] have b: "2 ^ nat (bitlen n - 1) \<le> n" "n < 2 ^ nat (bitlen n)" by simp_all
  have "bitlen n \<noteq> 0" using n by (simp add: bitlen_eq_zero_iff)
  with bitlen_nonneg [of n] have bl: "1 \<le> bitlen n" by linarith
  have il: "ilog2 m = bitlen n - 1" using True by (simp add: ilog2_def n_def)
  have "rat_of_int (2 ^ nat (bitlen n - 1)) \<le> rat_of_int n" using b(1) by (simp only: of_int_le_iff)
  also have "\<dots> \<le> m" by (simp add: n_def)
  finally have lo: "pow2 (ilog2 m) \<le> m" using bl by (simp add: il pow2_def)
  have "n + 1 \<le> 2 ^ nat (bitlen n)" using b(2) by simp
  then have "rat_of_int (n + 1) \<le> rat_of_int (2 ^ nat (bitlen n))" by (simp only: of_int_le_iff)
  moreover have "m < rat_of_int (n + 1)" using floor_correct [of m] by (simp add: n_def)
  ultimately have "m < rat_of_int (2 ^ nat (bitlen n))" by simp
  then have hi: "m < pow2 (ilog2 m + 1)" using bl by (simp add: il pow2_def)
  show ?thesis using lo hi by simp
next
  case False
  then have m1: "m < 1" by simp
  define n where "n = \<lfloor>1 / m\<rfloor>"
  define j where "j = bitlen n - 1"
  have "1 \<le> 1 / m" using assms m1 by simp
  then have n: "0 < n" by (simp add: n_def)
  from bitlen_bounds [OF n] have b: "2 ^ nat (bitlen n - 1) \<le> n" "n < 2 ^ nat (bitlen n)" by simp_all
  have "bitlen n \<noteq> 0" using n by (simp add: bitlen_eq_zero_iff)
  with bitlen_nonneg [of n] have bl: "1 \<le> bitlen n" by linarith
  then have j0: "0 \<le> j" by (simp add: j_def)
  have nj: "nat (bitlen n) = Suc (nat j)" using bl by (simp add: j_def)
  have "rat_of_int (2 ^ nat j) \<le> rat_of_int n" using b(1) unfolding j_def by (simp only: of_int_le_iff)
  also have "\<dots> \<le> 1 / m" by (simp add: n_def)
  finally have "2 ^ nat j \<le> 1 / m" by simp
  then have up: "m * 2 ^ nat j \<le> 1" using assms by (simp add: field_simps)
  have "n + 1 \<le> 2 ^ nat (bitlen n)" using b(2) by simp
  then have "rat_of_int (n + 1) \<le> rat_of_int (2 ^ nat (bitlen n))" by (simp only: of_int_le_iff)
  moreover have "1 / m < rat_of_int (n + 1)" using floor_correct [of "1 / m"] by (simp add: n_def)
  ultimately have "1 / m < 2 ^ Suc (nat j)" by (simp add: nj)
  then have lo: "1 < m * 2 ^ Suc (nat j)" using assms by (simp add: field_simps)
  show ?thesis
  proof (cases "m * pow2 j = 1")
    case True
    then have il: "ilog2 m = - j" using m1 by (simp add: ilog2_def Let_def n_def j_def)
    have pj: "pow2 j = 2 ^ nat j" using j0 by (simp add: pow2_def)
    have meq: "m = 1 / 2 ^ nat j" using True pj by (simp add: field_simps)
    have a: "pow2 (- j) = m" using pow2_neg [OF j0] meq by simp
    have "pow2 (- j + 1) = pow2 (- j) * pow2 1" by (rule pow2_add)
    also have "\<dots> = m * 2" unfolding a by (simp add: pow2_def)
    finally have "m < pow2 (- j + 1)" using assms by simp
    with a show ?thesis by (simp add: il)
  next
    case F: False
    then have il: "ilog2 m = - j - 1" using m1 by (simp add: ilog2_def Let_def n_def j_def)
    have pj: "pow2 j = 2 ^ nat j" using j0 by (simp add: pow2_def)
    have p1: "pow2 (- j - 1) = 1 / 2 ^ Suc (nat j)"
      using j0 by (simp add: pow2_def nat_add_distrib algebra_simps)
    have p2: "pow2 (- j - 1 + 1) = 1 / 2 ^ nat j"
      using pow2_neg [OF j0] by simp
    have "pow2 (- j - 1) \<le> m" unfolding p1 using lo by (simp add: field_simps)
    moreover have "m * 2 ^ nat j < 1" using up F pj by simp
    then have "m < pow2 (- j - 1 + 1)" unfolding p2 by (simp add: field_simps)
    ultimately show ?thesis by (simp add: il)
  qed
qed

text \<open>
  A rounded magnitude is not negative; subtraction, multiplication and division of finite
  operands give the rounded exact result, with its sign.
\<close>

lemma pow2_pos: "0 < pow2 e"
  by (simp add: pow2_def)

lemma round_half_even_nonneg: "0 \<le> q \<Longrightarrow> 0 \<le> round_half_even q"
  by (simp add: round_half_even_def Let_def)

lemma round_mag_nonneg:
  assumes "0 \<le> m" "round_mag p emin emax m = Some r"
  shows "0 \<le> r"
proof (cases "m = 0")
  case True
  with assms(2) show ?thesis by (simp add: round_mag_def)
next
  case False
  define u where "u = pow2 (max (ilog2 m) emin - int p + 1)"
  have u: "0 < u" by (simp add: u_def pow2_pos)
  have "r = of_int (round_half_even (m / u)) * u"
    using assms(2) False by (simp add: round_mag_def Let_def u_def split: if_splits)
  moreover have "0 \<le> round_half_even (m / u)"
    using assms(1) u by (intro round_half_even_nonneg) simp
  ultimately show ?thesis using u by simp
qed

lemma round_mag_0: "round_mag p emin emax 0 = Some 0"
  by (simp add: round_mag_def)

lemma to_float_val:
  assumes "0 \<le> m" "rnd32 (if s then - m else m) = Some a"
  shows "\<exists>r. to_float (Finite s m) = Finite s r \<and> 0 \<le> r \<and> (if s then - r else r) = a"
proof -
  have ab: "\<bar>if s then - m else m\<bar> = m" using assms(1) by simp
  obtain r where r: "round_mag 24 (- 126) 127 m = Some r"
    using assms(2) unfolding rnd32_def ab by (cases "round_mag 24 (- 126) 127 m") simp_all
  have a: "a = (if (if s then - m else m) < 0 then - r else r)"
    using assms(2) r unfolding rnd32_def ab by simp
  have nn: "0 \<le> r" using round_mag_nonneg [OF assms(1) r] .
  have "(if s then - r else r) = a"
  proof (cases "m = 0")
    case True
    with r have "r = 0" by (simp add: round_mag_0)
    with a True show ?thesis by simp
  next
    case False
    with assms(1) have "0 < m" by simp
    with a show ?thesis by simp
  qed
  moreover have "to_float (Finite s m) = Finite s r"
    by (simp add: to_float_def round_to_def r)
  ultimately show ?thesis using nn by blast
qed

lemma fsub_val:
  assumes "rnd32 (fval (Finite s m) - fval (Finite t n)) = Some a"
  shows "\<exists>sa ma. fsub (Finite s m) (Finite t n) = Finite sa ma \<and> 0 \<le> ma \<and> fval (Finite sa ma) = a"
proof -
  define v where "v = (if s then - m else m) - (if t then - n else n)"
  have v: "fval (Finite s m) - fval (Finite t n) = v" by (simp add: fval_def v_def)
  show ?thesis
  proof (cases "v = 0")
    case True
    have "a = 0" using assms unfolding v True by (simp add: rnd32_def round_mag_0)
    moreover have "fsub (Finite s m) (Finite t n) = Finite (s \<and> \<not> t) 0"
      using True by (simp add: fsub_def v_def Let_def)
    ultimately show ?thesis by (simp add: fval_def)
  next
    case False
    have x: "(if v < 0 then - \<bar>v\<bar> else \<bar>v\<bar>) = v" by simp
    have "rnd32 (if v < 0 then - \<bar>v\<bar> else \<bar>v\<bar>) = Some a" using assms unfolding v x .
    from to_float_val [OF _ this] obtain r where
      r: "to_float (Finite (v < 0) \<bar>v\<bar>) = Finite (v < 0) r" "0 \<le> r" "(if v < 0 then - r else r) = a"
      by auto
    have "fsub (Finite s m) (Finite t n)
        = (if v = 0 then Finite (s \<and> \<not> t) 0 else to_float (Finite (v < 0) \<bar>v\<bar>))"
      by (simp add: fsub_def Let_def v_def)
    then have "fsub (Finite s m) (Finite t n) = Finite (v < 0) r"
      using False r(1) by simp
    with r(2,3) show ?thesis by (simp add: fval_def)
  qed
qed

lemma fmul_val:
  assumes "0 \<le> m" "0 \<le> n" "rnd32 (fval (Finite s m) * fval (Finite t n)) = Some b"
  shows "\<exists>sb mb. fmul (Finite s m) (Finite t n) = Finite sb mb \<and> 0 \<le> mb \<and> fval (Finite sb mb) = b"
proof -
  have x: "fval (Finite s m) * fval (Finite t n) = (if s \<noteq> t then - (m * n) else m * n)"
    by (simp add: fval_def)
  have nn: "0 \<le> m * n" using assms(1,2) by simp
  from to_float_val [OF nn assms(3) [unfolded x]] obtain r where
    r: "to_float (Finite (s \<noteq> t) (m * n)) = Finite (s \<noteq> t) r" "0 \<le> r"
       "(if s \<noteq> t then - r else r) = b"
    by auto
  have "fmul (Finite s m) (Finite t n) = Finite (s \<noteq> t) r"
    using r(1) by (simp add: fmul_def)
  with r(2,3) show ?thesis by (simp add: fval_def)
qed

lemma fdiv_val:
  assumes "0 \<le> m" "0 \<le> n" "fval (Finite t n) \<noteq> 0"
    and "rnd32 (fval (Finite s m) / fval (Finite t n)) = Some q"
  shows "\<exists>sq mq. fdiv (Finite s m) (Finite t n) = Finite sq mq \<and> 0 \<le> mq \<and> fval (Finite sq mq) = q"
proof -
  have n0: "n \<noteq> 0" using assms(3) by (cases t) (auto simp: fval_def)
  have x: "fval (Finite s m) / fval (Finite t n) = (if s \<noteq> t then - (m / n) else m / n)"
    by (simp add: fval_def)
  have nn: "0 \<le> m / n" using assms(1,2) by simp
  from to_float_val [OF nn assms(4) [unfolded x]] obtain r where
    r: "to_float (Finite (s \<noteq> t) (m / n)) = Finite (s \<noteq> t) r" "0 \<le> r"
       "(if s \<noteq> t then - r else r) = q"
    by auto
  have "fdiv (Finite s m) (Finite t n) = Finite (s \<noteq> t) r"
    using r(1) n0 by (simp add: fdiv_def)
  with r(2,3) show ?thesis by (simp add: fval_def)
qed

text \<open>
  The conversion to \<^verbatim>\<open>int\<close> truncates toward zero.
\<close>

lemma c_float_to_int_trunc:
  assumes "0 \<le> q" "q < 2147483648"
  shows "c_float_to_int (Finite s q) = Some (if s then - \<lfloor>q\<rfloor> else \<lfloor>q\<rfloor>)"
proof -
  define t where "t = \<lfloor>q\<rfloor>"
  have "0 \<le> t" using assms(1) by (simp add: t_def)
  moreover have "t < 2147483648" using assms(2) by (simp add: t_def floor_less_iff)
  ultimately have r: "- 2147483648 \<le> - t" "- t \<le> 2147483647" "- 2147483648 \<le> t" "t \<le> 2147483647"
    by linarith+
  have "c_float_to_int (Finite s q)
      = (if - 2147483648 \<le> (if s then - t else t) \<and> (if s then - t else t) \<le> 2147483647
         then Some (if s then - t else t) else None)"
    by (simp add: c_float_to_int_def Let_def t_def)
  also have "\<dots> = Some (if s then - t else t)" using r by simp
  finally show ?thesis by (simp add: t_def)
qed

lemma c_float_to_int_val:
  assumes "0 \<le> m" "\<bar>fval (Finite s m)\<bar> < 2147483648"
  shows "c_float_to_int (Finite s m)
           = Some (if 0 \<le> fval (Finite s m) then \<lfloor>fval (Finite s m)\<rfloor> else \<lceil>fval (Finite s m)\<rceil>)"
proof -
  have "m < 2147483648" using assms by (auto simp: fval_def split: if_splits)
  from c_float_to_int_trunc [OF assms(1) this, of s]
  show ?thesis using assms(1) by (auto simp: fval_def ceiling_def)
qed

text \<open>
  A \<^verbatim>\<open>float\<close> is a multiple of \<open>2\<^bsup>-149\<^esup>\<close>, so the difference of two distinct
  \<^verbatim>\<open>float\<close>s does not round to zero.
\<close>

lemma round_half_even_ge_1: "1 \<le> q \<Longrightarrow> 1 \<le> round_half_even q"
proof -
  assume "1 \<le> q"
  then have "1 \<le> \<lfloor>q\<rfloor>" by simp
  then show ?thesis by (simp add: round_half_even_def Let_def)
qed

lemma float_grid:
  assumes "round_mag 24 (- 126) 127 m = Some m"
  shows "\<exists>k::int. m = of_int k * pow2 (- 149)"
proof (cases "m = 0")
  case True
  then have "m = of_int 0 * pow2 (- 149)" by simp
  then show ?thesis by blast
next
  case False
  define g where "g = max (ilog2 m) (- 126) + 126"
  have g: "0 \<le> g" by (simp add: g_def)
  define u where "u = pow2 (g + (- 149))"
  have ue: "max (ilog2 m) (- 126) - int 24 + 1 = g + (- 149)" by (simp add: g_def)
  have "Some m = (if pow2 (127 + 1) \<le> of_int (round_half_even (m / u)) * u then None
                  else Some (of_int (round_half_even (m / u)) * u))"
    using assms False unfolding round_mag_def Let_def ue u_def by simp
  then have meq: "m = of_int (round_half_even (m / u)) * u" by (simp split: if_splits)
  define k where "k = round_half_even (m / u)"
  have ueq: "u = of_int (2 ^ nat g) * pow2 (- 149)"
    unfolding u_def pow2_add using g by (simp add: pow2_nat)
  have "m = of_int k * u" using meq by (simp add: k_def)
  then have "m = of_int (k * 2 ^ nat g) * pow2 (- 149)" unfolding ueq by simp
  then show ?thesis by blast
qed

lemma round_mag_grid_pos:
  assumes "v = of_int j * pow2 (- 149)" "0 < v" "round_mag 24 (- 126) 127 v = Some r"
  shows "0 < r"
proof -
  define e where "e = max (ilog2 v) (- 126)"
  define u where "u = pow2 (e - int 24 + 1)"
  have u: "0 < u" by (simp add: u_def pow2_pos)
  have r: "r = of_int (round_half_even (v / u)) * u"
    using assms(2,3) by (simp add: round_mag_def Let_def e_def u_def split: if_splits)
  have j: "1 \<le> j"
  proof (rule ccontr)
    assume "\<not> 1 \<le> j"
    then have "j \<le> 0" by simp
    then have "rat_of_int j \<le> 0" by simp
    then have "of_int j * pow2 (- 149) \<le> 0" using pow2_pos [of "- 149"] by (simp add: mult_le_0_iff)
    with assms(1,2) show False by simp
  qed
  have "u \<le> v"
  proof (cases "ilog2 v \<le> - 126")
    case True
    then have "u = pow2 (- 149)" by (simp add: u_def e_def max_def)
    moreover have "pow2 (- 149) \<le> of_int j * pow2 (- 149)"
      using j pow2_pos [of "- 149"] by simp
    ultimately show ?thesis using assms(1) by simp
  next
    case False
    then have "e = ilog2 v" by (simp add: e_def max_def)
    then have "u = pow2 (ilog2 v + (- 23))" by (simp add: u_def)
    also have "\<dots> = pow2 (ilog2 v) * pow2 (- 23)" by (rule pow2_add)
    also have "\<dots> \<le> pow2 (ilog2 v) * 1"
      using pow2_pos [of "ilog2 v"] pow2_le_1 [of "- 23"] by (intro mult_left_mono) simp_all
    also have "\<dots> \<le> v" using ilog2_bounds [OF assms(2)] by simp
    finally show ?thesis .
  qed
  then have "1 \<le> v / u" using u by simp
  then have "1 \<le> round_half_even (v / u)" by (rule round_half_even_ge_1)
  then have "rat_of_int 1 \<le> rat_of_int (round_half_even (v / u))" by (simp only: of_int_le_iff)
  then have "0 < rat_of_int (round_half_even (v / u))" by simp
  with u show ?thesis unfolding r by simp
qed

lemma fval_grid:
  assumes "to_float (Finite s m) = Finite s m"
  shows "\<exists>k::int. fval (Finite s m) = of_int k * pow2 (- 149)"
proof -
  have "round_mag 24 (- 126) 127 m = Some m"
    using assms by (simp add: to_float_def round_to_def split: option.splits)
  from float_grid [OF this] obtain k :: int where k: "m = of_int k * pow2 (- 149)" by blast
  show ?thesis
  proof (cases s)
    case True
    then have "fval (Finite s m) = of_int (- k) * pow2 (- 149)" using k by (simp add: fval_def)
    then show ?thesis by blast
  next
    case False
    then have "fval (Finite s m) = of_int k * pow2 (- 149)" using k by (simp add: fval_def)
    then show ?thesis by blast
  qed
qed

lemma float_difference_pos:
  assumes "to_float (Finite sf f) = Finite sf f" "to_float (Finite se e) = Finite se e"
    and "fval (Finite se e) < fval (Finite sf f)"
    and "rnd32 (fval (Finite sf f) - fval (Finite se e)) = Some d"
  shows "0 < d"
proof -
  from fval_grid [OF assms(1)] obtain kf :: int where kf: "fval (Finite sf f) = of_int kf * pow2 (- 149)" by blast
  from fval_grid [OF assms(2)] obtain ke :: int where ke: "fval (Finite se e) = of_int ke * pow2 (- 149)" by blast
  define v where "v = fval (Finite sf f) - fval (Finite se e)"
  have v: "v = of_int (kf - ke) * pow2 (- 149)" by (simp add: v_def kf ke algebra_simps)
  have p: "0 < v" using assms(3) by (simp add: v_def)
  then have av: "\<bar>v\<bar> = v" by simp
  obtain r where r: "round_mag 24 (- 126) 127 v = Some r" "d = r"
    using assms(4) p unfolding v_def [symmetric] rnd32_def av
    by (cases "round_mag 24 (- 126) 127 v") simp_all
  from round_mag_grid_pos [OF v p r(1)] r(2) show ?thesis by simp
qed

text \<open>
  Values used in the examples.
\<close>

lemma float_2_1: "to_float (Finite False (21 / 10)) = Finite False (4404019 / 2097152)"
  by code_simp

lemma quotient_2_1:
  "fdiv (fmul (Finite False 100) (fsub (Finite False (4404019 / 2097152)) (Finite False 0)))
        (fsub (Finite False 10) (Finite False 0))
     = Finite False (11010047 / 524288)"
  by code_simp

lemma quotient_1_75:
  "fdiv (fmul (Finite False 100) (fsub (Finite False (7 / 4)) (Finite False 0)))
        (fsub (Finite False 100) (Finite False 0))
     = Finite False (7 / 4)"
  by code_simp

section \<open>The claims\<close>

subsection \<open>C1: value frames and their status digits\<close>

text \<open>
  C1, as the code has it. For every 16-byte value frame (a numeric field of digits around
  a point, six characters wide, and two status digits) the query program prints the
  weight if and only if the status digits are \<^verbatim>\<open>00\<close> or \<^verbatim>\<open>20\<close>, and the weight is the
  \<^verbatim>\<open>double\<close> nearest to the number the field denotes; for \<^verbatim>\<open>10\<close>, \<^verbatim>\<open>01\<close>, \<^verbatim>\<open>02\<close> and
  \<^verbatim>\<open>11\<close> it reports a scale error and for any other pair a status parse error.
  \<^verbatim>\<open>scale_read\<close> does not look at the status: on the same frame it returns 0 and stores
  the \<^verbatim>\<open>float\<close> nearest to the number the field denotes, whatever the digits.
\<close>

theorem value_frame_decoding:
  assumes "\<forall>c\<in>set ip. isdigit c" "\<forall>c\<in>set fp. isdigit c" "ip \<noteq> []" "length ip + length fp = 5"
    and "isdigit d1" "isdigit d2"
    and "dev (sent s) = Some (value_frame ip fp d1 d2)" "unread s = []"
  shows "main_decode (value_frame ip fp d1 d2) =
           (if (d1 = CHR ''0'' \<or> d1 = CHR ''2'') \<and> d2 = CHR ''0''
              then Weight_printed (to_double (Finite False (field_value ip fp)))
            else if d1 = CHR ''1'' \<and> d2 = CHR ''0'' then Scale_error ''Weight not stable''
            else if d1 = CHR ''0'' \<and> d2 = CHR ''1'' then Scale_error ''Under capacity''
            else if d1 = CHR ''0'' \<and> d2 = CHR ''2'' then Scale_error ''Over capacity''
            else if d1 = CHR ''1'' \<and> d2 = CHR ''1'' then Scale_error ''Under capacity''
            else Status_parse_error)
       \<and> scale_read dev s
           = Some (0, s\<lparr>unread := [], sent := Suc (sent s),
                        wp := to_float (Finite False (field_value ip fp)),
                        wp_stores := Suc (wp_stores s)\<rparr>)"
  using main_decode_value_frame [OF assms(1-4)]
    read_value_frame [where dev = dev and s = s, OF assms(1-3) assms(5-8)]
  by simp

text \<open>
  The field \<^verbatim>\<open>05.120\<close>: with status \<^verbatim>\<open>10\<close> the query program reports a scale error and
  \<^verbatim>\<open>scale_read\<close> stores 5368709/1048576, the \<^verbatim>\<open>float\<close> nearest to 5.12; with status
  \<^verbatim>\<open>00\<close> the query program prints the \<^verbatim>\<open>double\<close> nearest to 5.12.
\<close>

theorem value_frame_decoding_witness:
  "length ''05'' + length ''120'' = 5 \<and> isdigit (CHR ''1'') \<and> isdigit (CHR ''0'')
   \<and> unstable_value (sent io0) = Some (value_frame ''05'' ''120'' (CHR ''1'') (CHR ''0''))
   \<and> unread io0 = []
   \<and> main_decode (value_frame ''05'' ''120'' (CHR ''1'') (CHR ''0'')) = Scale_error ''Weight not stable''
   \<and> scale_read unstable_value io0
        = Some (0, \<lparr>unread = [], sent = 1, wp = Finite False (5368709 / 1048576), wp_stores = 1,
                     errno = None\<rparr>)
   \<and> in_motion_twice (sent (io0\<lparr>sent := 2\<rparr>)) = Some (value_frame ''05'' ''120'' (CHR ''0'') (CHR ''0''))
   \<and> main_decode (value_frame ''05'' ''120'' (CHR ''0'') (CHR ''0''))
        = Weight_printed (Finite False (5764607523034235 / 1125899906842624))"
proof -
  have h: "\<forall>c\<in>set ''05''. isdigit c" "\<forall>c\<in>set ''120''. isdigit c" "''05'' \<noteq> []"
      "length ''05'' + length ''120'' = 5" "isdigit (CHR ''1'')" "isdigit (CHR ''0'')"
      "unstable_value (sent io0) = Some (value_frame ''05'' ''120'' (CHR ''1'') (CHR ''0''))"
      "unread io0 = []"
    by (simp_all add: digit_chars unstable_value_def io0_def)
  have g: "isdigit (CHR ''0'')" "isdigit (CHR ''0'')"
      "in_motion_twice (sent (io0\<lparr>sent := 2\<rparr>)) = Some (value_frame ''05'' ''120'' (CHR ''0'') (CHR ''0''))"
      "unread (io0\<lparr>sent := 2\<rparr>) = []"
    by (simp_all add: digit_chars in_motion_twice_def io0_def)
  show ?thesis
    using h(4-8) g(3) value_frame_decoding [where dev = unstable_value and s = io0, OF h]
      value_frame_decoding [where dev = in_motion_twice and s = "io0\<lparr>sent := 2\<rparr>", OF h(1-4) g]
    by (simp add: field_05_120 float_05_120 double_05_120 io0_def)
qed

text \<open>
  The claim as stated fails on \<^verbatim>\<open>scale_read\<close>: the value \<^verbatim>\<open>05.120\<close> with status \<^verbatim>\<open>10\<close>
  is returned as a weight (and the value stored is not 128/25).
\<close>

theorem unstable_weight_accepted_counterexample:
  "unstable_value 0 = Some (value_frame ''05'' ''120'' (CHR ''1'') (CHR ''0''))
   \<and> length (value_frame ''05'' ''120'' (CHR ''1'') (CHR ''0'')) = 16
   \<and> scale_read unstable_value io0
       = Some (0, \<lparr>unread = [], sent = 1, wp = Finite False (5368709 / 1048576), wp_stores = 1,
                    errno = None\<rparr>)"
  using read_value_frame [where dev = unstable_value and s = io0 and ip = "''05''" and fp = "''120''"
      and ?d1.0 = "CHR ''1''" and ?d2.0 = "CHR ''0''"]
  by (simp add: digit_chars unstable_value_def io0_def field_05_120 float_05_120 value_frame_def trailer_def)

subsection \<open>C2: the retry loop has no cap\<close>

text \<open>
  C2, as the code has it. \<^verbatim>\<open>scale_read\<close> retries without a bound: when the scale answers
  \<open>n\<close> queries with the status-only frame \<^verbatim>\<open>S10\<close> and the next one with a value frame,
  the call sends \<open>n + 1\<close> queries and returns that value, for every \<open>n\<close>; when the scale
  answers every query with \<^verbatim>\<open>S10\<close> the call never returns. There is no timeout error.
\<close>

theorem read_retries_without_cap:
  assumes "\<forall>c\<in>set ip. isdigit c" "\<forall>c\<in>set fp. isdigit c" "ip \<noteq> []" "isdigit e1" "isdigit e2"
    and "unread s = []"
  shows "((\<forall>k<n. dev (sent s + k) = Some (status_frame (CHR ''1'') (CHR ''0'')))
            \<and> dev (sent s + n) = Some (value_frame ip fp e1 e2)
          \<longrightarrow> scale_read dev s
                = Some (0, s\<lparr>unread := [], sent := sent s + n + 1, wp := to_float (Finite False (field_value ip fp)),
                             wp_stores := Suc (wp_stores s)\<rparr>))
       \<and> ((\<forall>k. dev k = Some (status_frame (CHR ''1'') (CHR ''0''))) \<longrightarrow> scale_read dev s = None)"
proof (intro conjI impI)
  assume a: "(\<forall>k<n. dev (sent s + k) = Some (status_frame (CHR ''1'') (CHR ''0'')))
            \<and> dev (sent s + n) = Some (value_frame ip fp e1 e2)"
  then have "\<forall>k<n. \<exists>d1 d2. isdigit d1 \<and> isdigit d2 \<and> dev (sent s + k) = Some (status_frame d1 d2)"
    using digit_chars by blast
  with a assms show "scale_read dev s
                = Some (0, s\<lparr>unread := [], sent := sent s + n + 1, wp := to_float (Finite False (field_value ip fp)),
                             wp_stores := Suc (wp_stores s)\<rparr>)"
    by (intro read_after_status_frames) simp_all
next
  assume "\<forall>k. dev k = Some (status_frame (CHR ''1'') (CHR ''0''))"
  then have "\<forall>k. \<exists>d1 d2. isdigit d1 \<and> isdigit d2 \<and> dev k = Some (status_frame d1 d2)"
    using digit_chars by blast
  then show "scale_read dev s = None"
    using assms(6) by (intro read_never_returns)
qed

theorem read_retries_without_cap_witness:
  "isdigit (CHR ''0'') \<and> unread io0 = []
   \<and> in_motion_twice (sent io0 + 0) = Some (status_frame (CHR ''1'') (CHR ''0''))
   \<and> in_motion_twice (sent io0 + 1) = Some (status_frame (CHR ''1'') (CHR ''0''))
   \<and> in_motion_twice (sent io0 + 2) = Some (value_frame ''05'' ''120'' (CHR ''0'') (CHR ''0''))
   \<and> scale_read in_motion_twice io0
        = Some (0, \<lparr>unread = [], sent = 3, wp = Finite False (5368709 / 1048576), wp_stores = 1, errno = None\<rparr>)"
proof -
  have h: "\<forall>c\<in>set ''05''. isdigit c" "\<forall>c\<in>set ''120''. isdigit c" "''05'' \<noteq> []"
      "isdigit (CHR ''0'')" "isdigit (CHR ''0'')" "unread io0 = []"
    by (simp_all add: digit_chars io0_def)
  have g: "(\<forall>k<2. in_motion_twice (sent io0 + k) = Some (status_frame (CHR ''1'') (CHR ''0'')))
      \<and> in_motion_twice (sent io0 + 2) = Some (value_frame ''05'' ''120'' (CHR ''0'') (CHR ''0''))"
    by (simp add: in_motion_twice_def io0_def)
  show ?thesis
    using h(4-6) g read_retries_without_cap [where dev = in_motion_twice and s = io0 and n = 2, OF h]
    by (simp add: field_05_120 float_05_120 io0_def in_motion_twice_def)
qed

text \<open>
  The claim as stated fails: on a scale that is in motion for ever the call does not
  terminate.
\<close>

theorem in_motion_forever_counterexample:
  "scale_read in_motion_forever io0 = None"
proof (rule read_never_returns)
  show "\<forall>k. \<exists>d1 d2. isdigit d1 \<and> isdigit d2 \<and> in_motion_forever k = Some (status_frame d1 d2)"
    unfolding in_motion_forever_def using digit_chars by blast
  show "unread io0 = []" by (simp add: io0_def)
qed

subsection \<open>C3: every status-only frame is retried\<close>

text \<open>
  C3, as the code has it. A status-only frame makes \<^verbatim>\<open>scale_read\<close> send the query again
  whatever its two status digits are: the pass ends in \<^verbatim>\<open>goto again\<close>, with one more
  query sent and nothing left unread.
\<close>

theorem status_only_always_retried:
  assumes "isdigit d1" "isdigit d2"
    and "dev (sent s) = Some (status_frame d1 d2)" "unread s = []"
  shows "scale_read_pass dev s = Inr (s\<lparr>unread := [], sent := Suc (sent s)\<rparr>)
       \<and> scale_read dev s = scale_read dev (s\<lparr>unread := [], sent := Suc (sent s)\<rparr>)"
  using pass_status_frame [where dev = dev and s = s, OF assms]
    read_status_frame [where dev = dev and s = s, OF assms]
  by simp

theorem status_only_always_retried_witness:
  "isdigit (CHR ''0'') \<and> isdigit (CHR ''1'')
   \<and> under_status_then_value (sent io0) = Some (status_frame (CHR ''0'') (CHR ''1''))
   \<and> unread io0 = []
   \<and> scale_read_pass under_status_then_value io0 = Inr (io0\<lparr>sent := 1\<rparr>)
   \<and> scale_read under_status_then_value io0 = scale_read under_status_then_value (io0\<lparr>sent := 1\<rparr>)"
proof -
  have h: "isdigit (CHR ''0'')" "isdigit (CHR ''1'')"
      "under_status_then_value (sent io0) = Some (status_frame (CHR ''0'') (CHR ''1''))"
      "unread io0 = []"
    by (simp_all add: digit_chars under_status_then_value_def io0_def)
  show ?thesis
    using h status_only_always_retried [where dev = under_status_then_value and s = io0, OF h]
    by (simp add: io0_def)
qed

text \<open>
  The claim as stated fails: a status-only frame with code \<^verbatim>\<open>01\<close> is retried, and the
  call returns the weight of the second answer.
\<close>

theorem status_only_01_retried_counterexample:
  "under_status_then_value 0 = Some (status_frame (CHR ''0'') (CHR ''1''))
   \<and> scale_read under_status_then_value io0
       = Some (0, \<lparr>unread = [], sent = 2, wp = Finite False (5368709 / 1048576), wp_stores = 1, errno = None\<rparr>)"
  using read_under_status_then_value by (simp add: under_status_then_value_def)

subsection \<open>C4: the messages of \<^verbatim>\<open>pot_update\<close>\<close>

text \<open>
  C4, as the code has it. \<^verbatim>\<open>pot_update\<close> logs ``off'' exactly when the new percentage is
  negative and the previous one is not; it logs ``on'' with the new percentage exactly
  when the new percentage is not negative and the previous one is not positive; otherwise
  it logs nothing. The new percentage is stored in every case.
\<close>

theorem pot_update_messages:
  "(fst (pot_update pot p) = Some Off \<longleftrightarrow> p < 0 \<and> 0 \<le> pct pot)
   \<and> (fst (pot_update pot p) = Some (On q) \<longleftrightarrow> q = p \<and> 0 \<le> p \<and> pct pot \<le> 0)
   \<and> (fst (pot_update pot p) = None \<longleftrightarrow> (p < 0 \<and> pct pot < 0) \<or> (0 \<le> p \<and> 0 < pct pot))
   \<and> snd (pot_update pot p) = pot\<lparr>pct := p\<rparr>"
  by (auto simp: pot_update_def)

theorem pot_update_messages_witness:
  "fst (pot_update (demo_pot (- 3)) 40) = Some (On 40)
   \<and> fst (pot_update (demo_pot 40) (- 3)) = Some Off
   \<and> fst (pot_update (demo_pot 40) 55) = None
   \<and> snd (pot_update (demo_pot 40) 55) = demo_pot 55"
  using pot_update_messages [of "demo_pot (- 3)" 40 40] pot_update_messages [of "demo_pot 40" "- 3" 0]
    pot_update_messages [of "demo_pot 40" 55 0]
  by (simp add: demo_pot_def)

text \<open>
  The claim as stated fails: with a previous and a new percentage of 0 the message ``on''
  is logged.
\<close>

theorem pot_update_zero_zero_counterexample:
  "pct (demo_pot 0) = 0 \<and> fst (pot_update (demo_pot 0) 0) = Some (On 0)"
  by (simp add: pot_update_def demo_pot_def)

subsection \<open>C5: no message for a changed percentage\<close>

text \<open>
  C5, as the code has it. When neither condition of \<^verbatim>\<open>pot_update\<close> holds, nothing is
  logged and only the percentage is stored; the message never depends on \<^verbatim>\<open>pct_err\<close>.
\<close>

theorem pot_update_never_updated:
  "(\<not> (p < 0 \<and> 0 \<le> pct pot) \<and> \<not> (0 \<le> p \<and> pct pot \<le> 0)
      \<longrightarrow> pot_update pot p = (None, pot\<lparr>pct := p\<rparr>))
   \<and> fst (pot_update (pot\<lparr>pct_err := e\<rparr>) p) = fst (pot_update pot p)"
  by (simp add: pot_update_def)

theorem pot_update_never_updated_witness:
  "\<not> ((60::int) < 0 \<and> 0 \<le> pct (demo_pot 20)) \<and> \<not> ((0::int) \<le> 60 \<and> pct (demo_pot 20) \<le> 0)
   \<and> pot_update (demo_pot 20) 60 = (None, demo_pot 60)"
  using pot_update_never_updated [of 60 "demo_pot 20" 5]
  by (simp add: demo_pot_def)

text \<open>
  The claim as stated fails: from 20 to 60 per cent with a tolerance of 5 the bucket
  changes, and nothing is logged.
\<close>

theorem pot_update_bucket_counterexample:
  "pct (demo_pot 20) = 20 \<and> pct_err (demo_pot 20) = 5
   \<and> spec_bucket 5 60 \<noteq> spec_bucket 5 20
   \<and> fst (pot_update (demo_pot 20) 60) = None"
  by (simp add: pot_update_def demo_pot_def spec_bucket_def)

subsection \<open>C6: the percentage is a truncated single-precision quotient\<close>

text \<open>
  C6, as the code has it. For a finite reading and finite thresholds let \<open>a\<close> be the
  difference \<^verbatim>\<open>lbs - empty_lbs\<close>, \<open>b\<close> the product \<^verbatim>\<open>100 * a\<close>, \<open>d\<close> the difference
  \<^verbatim>\<open>full_lbs - empty_lbs\<close> and \<open>q\<close> the quotient \<^verbatim>\<open>b / d\<close>, each rounded to \<^verbatim>\<open>float\<close>
  as it is computed. For a valid configuration, two thresholds that are \<^verbatim>\<open>float\<close>s with
  \<^verbatim>\<open>empty_lbs\<close> below \<^verbatim>\<open>full_lbs\<close>, \<open>d\<close> is positive. Whenever \<open>d\<close> is not 0 and \<open>q\<close> is
  below \<open>2\<^sup>3\<^sup>1\<close> in magnitude, the percentage is \<open>q\<close> truncated toward zero: \<open>\<lfloor>q\<rfloor>\<close> for
  a \<open>q\<close> that is not negative and \<open>\<lceil>q\<rceil>\<close> for a negative one. It is not rounded to the
  nearest integer and not clamped: an integral \<open>q\<close>, also one outside 0 to 100, is the
  percentage itself.
\<close>

theorem checker_pct_truncates:
  assumes "lbs = Finite sw w" "empty_lbs pot = Finite se e" "full_lbs pot = Finite sf f"
    and "rnd32 (fval lbs - fval (empty_lbs pot)) = Some a"
    and "rnd32 (100 * a) = Some b"
    and "rnd32 (fval (full_lbs pot) - fval (empty_lbs pot)) = Some d"
    and "rnd32 (b / d) = Some q" "\<bar>q\<bar> < 2147483648"
  shows "(to_float (full_lbs pot) = full_lbs pot \<and> to_float (empty_lbs pot) = empty_lbs pot
            \<and> fval (empty_lbs pot) < fval (full_lbs pot) \<longrightarrow> 0 < d)
       \<and> (d \<noteq> 0 \<longrightarrow> checker_pct pot lbs = Some (if 0 \<le> q then \<lfloor>q\<rfloor> else \<lceil>q\<rceil>)
                    \<and> (\<forall>n. q = rat_of_int n \<longrightarrow> checker_pct pot lbs = Some n))"
proof (intro conjI impI)
  assume v: "to_float (full_lbs pot) = full_lbs pot \<and> to_float (empty_lbs pot) = empty_lbs pot
            \<and> fval (empty_lbs pot) < fval (full_lbs pot)"
  show "0 < d"
    using float_difference_pos [of sf f se e d] v assms(6) unfolding assms(2,3) by simp
next
  assume d0: "d \<noteq> 0"
  from fsub_val [OF assms(4) [unfolded assms(1,2)]] obtain sa ma where
    A: "fsub lbs (empty_lbs pot) = Finite sa ma" "0 \<le> ma" "fval (Finite sa ma) = a"
    unfolding assms(1,2) by auto
  from fsub_val [OF assms(6) [unfolded assms(2,3)]] obtain sd md where
    D: "fsub (full_lbs pot) (empty_lbs pot) = Finite sd md" "0 \<le> md" "fval (Finite sd md) = d"
    unfolding assms(2,3) by auto
  have h: "fval (Finite False 100) * fval (Finite sa ma) = 100 * a"
    using A(3) by (simp add: fval_def)
  from fmul_val [OF _ A(2), of 100 False sa b] assms(5) h obtain sb mb where
    B: "fmul (Finite False 100) (Finite sa ma) = Finite sb mb" "0 \<le> mb" "fval (Finite sb mb) = b"
    by auto
  have dn: "fval (Finite sd md) \<noteq> 0" using D(3) d0 by simp
  have "rnd32 (fval (Finite sb mb) / fval (Finite sd md)) = Some q"
    using assms(7) B(3) D(3) by simp
  from fdiv_val [OF B(2) D(2) dn this] obtain sq mq where
    Q: "fdiv (Finite sb mb) (Finite sd md) = Finite sq mq" "0 \<le> mq" "fval (Finite sq mq) = q"
    by auto
  have c: "checker_pct pot lbs = c_float_to_int (Finite sq mq)"
    by (simp add: checker_pct_def A(1) B(1) D(1) Q(1))
  have "\<bar>fval (Finite sq mq)\<bar> < 2147483648" using assms(8) Q(3) by simp
  from c_float_to_int_val [OF Q(2) this]
  show 1: "checker_pct pot lbs = Some (if 0 \<le> q then \<lfloor>q\<rfloor> else \<lceil>q\<rceil>)"
    unfolding c Q(3) .
  show "\<forall>n. q = rat_of_int n \<longrightarrow> checker_pct pot lbs = Some n"
    unfolding 1 by auto
qed

text \<open>
  With thresholds 0 and 10, which are \<^verbatim>\<open>float\<close>s: the reading 4404019/2097152, the
  \<^verbatim>\<open>float\<close> nearest to 2.1, gives the product 13762559/65536, the quotient
  11010047/524288 and 20 per cent; the reading 11 gives 110 per cent and the reading -1
  gives -10 per cent.
\<close>

theorem checker_pct_truncates_witness:
  "to_float (full_lbs (demo_pot 0)) = full_lbs (demo_pot 0)
   \<and> to_float (empty_lbs (demo_pot 0)) = empty_lbs (demo_pot 0)
   \<and> fval (empty_lbs (demo_pot 0)) < fval (full_lbs (demo_pot 0))
   \<and> rnd32 (fval (Finite False (4404019 / 2097152)) - fval (empty_lbs (demo_pot 0))) = Some (4404019 / 2097152)
   \<and> rnd32 (100 * (4404019 / 2097152)) = Some (13762559 / 65536)
   \<and> rnd32 (fval (full_lbs (demo_pot 0)) - fval (empty_lbs (demo_pot 0))) = Some 10
   \<and> rnd32 (13762559 / 65536 / 10) = Some (11010047 / 524288)
   \<and> checker_pct (demo_pot 0) (Finite False (4404019 / 2097152)) = Some 20
   \<and> rnd32 (fval (Finite False 11) - fval (empty_lbs (demo_pot 0))) = Some 11
   \<and> rnd32 (100 * 11) = Some 1100
   \<and> rnd32 (1100 / 10) = Some 110
   \<and> checker_pct (demo_pot 0) (Finite False 11) = Some 110
   \<and> rnd32 (fval (Finite True 1) - fval (empty_lbs (demo_pot 0))) = Some (- 1)
   \<and> rnd32 (100 * (- 1)) = Some (- 100)
   \<and> rnd32 (- 100 / 10) = Some (- 10)
   \<and> checker_pct (demo_pot 0) (Finite True 1) = Some (- 10)"
proof -
  have e: "empty_lbs (demo_pot 0) = Finite False 0" and f: "full_lbs (demo_pot 0) = Finite False 10"
    by (simp_all add: demo_pot_def)
  have v1: "to_float (full_lbs (demo_pot 0)) = full_lbs (demo_pot 0)" by code_simp
  have v2: "to_float (empty_lbs (demo_pot 0)) = empty_lbs (demo_pot 0)" by code_simp
  have v3: "fval (empty_lbs (demo_pot 0)) < fval (full_lbs (demo_pot 0))"
    by (simp add: e f fval_def)
  have d: "rnd32 (fval (full_lbs (demo_pot 0)) - fval (empty_lbs (demo_pot 0))) = Some 10"
    by code_simp
  have a1: "rnd32 (fval (Finite False (4404019 / 2097152)) - fval (empty_lbs (demo_pot 0)))
      = Some (4404019 / 2097152)"
    by code_simp
  have b1: "rnd32 (100 * (4404019 / 2097152)) = Some (13762559 / 65536)" by code_simp
  have q1: "rnd32 (13762559 / 65536 / 10) = Some (11010047 / 524288)" by code_simp
  have r1: "\<bar>11010047 / 524288 :: rat\<bar> < 2147483648" by simp
  have f1: "\<lfloor>11010047 / 524288 :: rat\<rfloor> = 20" by (simp add: floor_eq_iff)
  note T1 = checker_pct_truncates [OF refl e f a1 b1 d q1 r1]
  have d0: "(0::rat) < 10" using T1 [THEN conjunct1] v1 v2 v3 by simp
  then have dn: "(10::rat) \<noteq> 0" by simp
  have 1: "checker_pct (demo_pot 0) (Finite False (4404019 / 2097152)) = Some 20"
    using T1 [THEN conjunct2, THEN mp, OF dn, THEN conjunct1] f1 by simp
  have a2: "rnd32 (fval (Finite False 11) - fval (empty_lbs (demo_pot 0))) = Some 11" by code_simp
  have b2: "rnd32 (100 * 11) = Some 1100" by code_simp
  have q2: "rnd32 (1100 / 10) = Some 110" by code_simp
  have r2: "\<bar>110 :: rat\<bar> < 2147483648" by simp
  have 2: "checker_pct (demo_pot 0) (Finite False 11) = Some 110"
    using checker_pct_truncates [OF refl e f a2 b2 d q2 r2, THEN conjunct2, THEN mp, OF dn, THEN conjunct2]
    by (metis of_int_numeral)
  have a3: "rnd32 (fval (Finite True 1) - fval (empty_lbs (demo_pot 0))) = Some (- 1)" by code_simp
  have b3: "rnd32 (100 * (- 1)) = Some (- 100)" by code_simp
  have q3: "rnd32 (- 100 / 10) = Some (- 10)" by code_simp
  have r3: "\<bar>- 10 :: rat\<bar> < 2147483648" by simp
  have 3: "checker_pct (demo_pot 0) (Finite True 1) = Some (- 10)"
    using checker_pct_truncates [OF refl e f a3 b3 d q3 r3, THEN conjunct2, THEN mp, OF dn, THEN conjunct1]
    by simp
  show ?thesis using v1 v2 v3 a1 b1 d q1 1 a2 b2 q2 2 a3 b3 q3 3 by simp
qed

text \<open>
  The claim as stated fails. The frame \<^verbatim>\<open>02.100\<close> is read as the \<^verbatim>\<open>float\<close>
  4404019/2097152; with thresholds 0 and 10 the code computes 20, and the quotient of
  the claim, about 20.99999905, rounds to 21. With thresholds 0 and 100 the reading 1.75,
  where every operation is exact, gives 1 and rounds to 2.
\<close>

theorem checker_pct_round_counterexample:
  "to_float (Finite False (field_value ''02'' ''100'')) = Finite False (4404019 / 2097152)
   \<and> checker_pct (demo_pot 0) (Finite False (4404019 / 2097152)) = Some 20
   \<and> round (100 * (4404019 / 2097152 - 0) / (10 - 0) :: rat) = 21
   \<and> checker_pct ((demo_pot 0)\<lparr>full_lbs := Finite False 100\<rparr>) (Finite False (7 / 4)) = Some 1
   \<and> round (100 * (7 / 4 - 0) / (100 - 0) :: rat) = 2"
proof -
  have 1: "to_float (Finite False (field_value ''02'' ''100'')) = Finite False (4404019 / 2097152)"
    by (simp add: field_value_def digits_val_def digit_val_def float_2_1)
  have 2: "checker_pct (demo_pot 0) (Finite False (4404019 / 2097152)) = Some 20"
    by (simp add: checker_pct_def demo_pot_def quotient_2_1 c_float_to_int_def floor_eq_iff)
  have 3: "round (100 * (4404019 / 2097152 - 0) / (10 - 0) :: rat) = 21"
    by (simp add: round_def floor_eq_iff)
  have 4: "checker_pct ((demo_pot 0)\<lparr>full_lbs := Finite False 100\<rparr>) (Finite False (7 / 4)) = Some 1"
    by (simp add: checker_pct_def demo_pot_def quotient_1_75 c_float_to_int_def floor_eq_iff)
  have 5: "round (100 * (7 / 4 - 0) / (100 - 0) :: rat) = 2"
    by (simp add: round_def floor_eq_iff)
  show ?thesis using 1 2 3 4 5 by simp
qed

subsection \<open>C7: over capacity, under capacity and the zeroing error\<close>

text \<open>
  C7 holds for the over-capacity and under-capacity frames (\<open>read_over_frame\<close> and
  \<open>read_under_frame\<close> above: one query, result -1, \<^verbatim>\<open>ERANGE\<close>). It fails for the
  zeroing-error frame: the first \<^verbatim>\<open>fscanf\<close> consumes one \<^verbatim>\<open>-\<close>, the format of the zeroing
  error no longer matches, the status-only format does, and the query is sent again. On a
  scale that answers a zeroing-error frame and then a value frame the call returns 0 with
  the weight after two queries, and \<^verbatim>\<open>EDOM\<close> is never set.
\<close>

theorem zero_error_frame_retried:
  "zero_then_value 0 = Some (fill_frame (CHR ''-'') (CHR ''0'') (CHR ''0''))
   \<and> fscanf fmt_value (fill_frame (CHR ''-'') (CHR ''0'') (CHR ''0''))
       = ([], CHR ''-'' # CHR ''-'' # CHR ''-'' # CHR ''-'' # CHR ''-'' # CR # LF # trailer (CHR ''0'') (CHR ''0''))
   \<and> scale_read_pass zero_then_value io0 = Inr (io0\<lparr>sent := 1\<rparr>)
   \<and> scale_read zero_then_value io0
       = Some (0, \<lparr>unread = [], sent = 2, wp = Finite False (5368709 / 1048576), wp_stores = 1, errno = None\<rparr>)"
proof -
  have 1: "scale_read_pass zero_then_value io0 = Inr (io0\<lparr>unread := [], sent := Suc (sent io0)\<rparr>)"
    by (rule pass_zero_frame [where ?d1.0 = "CHR ''0''" and ?d2.0 = "CHR ''0''"])
       (simp_all add: digit_chars zero_then_value_def io0_def)
  have 2: "scale_read zero_then_value (io0\<lparr>unread := [], sent := Suc (sent io0)\<rparr>)
      = Some (0, \<lparr>unread = [], sent = 2, wp = Finite False (5368709 / 1048576), wp_stores = 1, errno = None\<rparr>)"
    using read_value_frame [where dev = zero_then_value and s = "io0\<lparr>unread := [], sent := Suc (sent io0)\<rparr>"
       and ip = "''05''" and fp = "''120''" and ?d1.0 = "CHR ''0''" and ?d2.0 = "CHR ''0''"]
    by (simp add: digit_chars zero_then_value_def io0_def field_05_120 float_05_120)
  have 3: "scale_read zero_then_value io0
      = Some (0, \<lparr>unread = [], sent = 2, wp = Finite False (5368709 / 1048576), wp_stores = 1, errno = None\<rparr>)"
    by (subst scale_read.simps) (simp add: 1 2)
  show ?thesis
    using 1 3 fscanf_value_on_zero [of "CHR ''0''" "CHR ''0''"]
    by (simp add: zero_then_value_def io0_def)
qed

text \<open>
  The branch that sets \<^verbatim>\<open>EDOM\<close> is there and returns at once; it is reached when seven
  fill characters arrive, one for the failed \<^verbatim>\<open>%f\<close> and six for the format.
\<close>

lemma read_seven_dashes:
  "scale_read seven_dashes io0
     = Some (- 1, \<lparr>unread = [], sent = 1, wp = Finite False 0, wp_stores = 0, errno = Some EDOM\<rparr>)"
  by (subst scale_read.simps)
     (simp add: scale_read_pass_def seven_dashes_def io0_def fscanf_value_on_seven_dashes
        fscanf_fill_mismatch fscanf_fill_match digit_chars chars)

subsection \<open>C8: the width of the numeric field\<close>

text \<open>
  C8, as the code has it. The query program prints a weight only when \<^verbatim>\<open>strtod\<close>,
  started at the second byte, stops after exactly six characters, and the weight is the
  value \<^verbatim>\<open>strtod\<close> returns; in particular a 16-byte frame whose field is a number cut
  short by a space (a partial parse) gives ``Error parsing value response''.
  \<^verbatim>\<open>scale_read\<close> has no such check: \<^verbatim>\<open>%f\<close> carries no width, and a value frame whose
  field has any number of digits is returned as a weight. On a field of digits around a
  point that is six characters wide \<^verbatim>\<open>strtod\<close> stops after the six characters, with
  the \<^verbatim>\<open>double\<close> nearest to the number the field denotes.
\<close>

theorem field_width_checked_by_parse_value_only:
  "(main_decode buf = Weight_printed w \<longrightarrow> c_strtod (drop 1 buf) = (w, 6))
   \<and> (snd (c_strtod (drop 1 buf)) \<noteq> 6
        \<longrightarrow> parse_value buf = None \<and> (\<forall>v. main_decode buf \<noteq> Weight_printed v))
   \<and> ((\<forall>c\<in>set ip. isdigit c) \<and> (\<forall>c\<in>set fp. isdigit c) \<and> ip \<noteq> []
        \<and> length ip + length fp + length pad = 4
      \<longrightarrow> main_decode (partial_frame ip fp pad (CHR ''0'') (CHR ''0'')) = Value_parse_error)
   \<and> ((\<forall>c\<in>set ip. isdigit c) \<and> (\<forall>c\<in>set fp. isdigit c) \<and> ip \<noteq> [] \<and> isdigit d1 \<and> isdigit d2
        \<and> dev (sent s) = Some (value_frame ip fp d1 d2) \<and> unread s = []
      \<longrightarrow> scale_read dev s
            = Some (0, s\<lparr>unread := [], sent := Suc (sent s),
                         wp := to_float (Finite False (field_value ip fp)),
                         wp_stores := Suc (wp_stores s)\<rparr>))
   \<and> ((\<forall>c\<in>set ip. isdigit c) \<and> (\<forall>c\<in>set fp. isdigit c) \<and> ip \<noteq> []
        \<and> length ip + length fp = 5
      \<longrightarrow> c_strtod (drop 1 (value_frame ip fp d1 d2))
            = (to_double (Finite False (field_value ip fp)), 6))"
proof -
  have "c_strtod (drop 1 (value_frame ip fp d1 d2))
            = (to_double (Finite False (field_value ip fp)), 6)"
    if "\<forall>c\<in>set ip. isdigit c" "\<forall>c\<in>set fp. isdigit c" "ip \<noteq> []" "length ip + length fp = 5"
    using that(4) by (simp add: value_frame_parts(7) [OF that(4)] strtod_field [OF that(1-3)])
  then show ?thesis
    using main_decode_printed [of buf w] main_decode_width [of buf]
      main_decode_partial_frame [of ip fp pad]
      read_value_frame [where dev = dev and s = s and ip = ip and fp = fp]
    by blast
qed

text \<open>
  The 16-byte frame with the field \<^verbatim>\<open>05.1 0\<close> is refused; the one with the hexadecimal
  field \<^verbatim>\<open>0x1p+1\<close>, which \<^verbatim>\<open>strtod\<close> reads whole, prints 2; the frame with the
  nine-character field \<^verbatim>\<open>0005.1200\<close> is accepted by \<^verbatim>\<open>scale_read\<close>.
\<close>

theorem field_width_checked_by_parse_value_only_witness:
  "partial_field_frame = partial_frame ''05'' ''1'' ''0'' (CHR ''0'') (CHR ''0'')
   \<and> length ''05'' + length ''1'' + length ''0'' = 4
   \<and> length partial_field_frame = 16
   \<and> c_strtod (drop 1 partial_field_frame) = (Finite False (2871044762448691 / 562949953421312), 4)
   \<and> parse_value partial_field_frame = None
   \<and> main_decode partial_field_frame = Value_parse_error
   \<and> main_decode hex_field_frame = Weight_printed (Finite False 2)
   \<and> c_strtod (drop 1 hex_field_frame) = (Finite False 2, 6)
   \<and> isdigit (CHR ''0'')
   \<and> long_field (sent io0) = Some (value_frame ''0005'' ''1200'' (CHR ''0'') (CHR ''0''))
   \<and> unread io0 = []
   \<and> scale_read long_field io0
        = Some (0, \<lparr>unread = [], sent = 1, wp = Finite False (5368709 / 1048576), wp_stores = 1,
                     errno = None\<rparr>)
   \<and> length ''05'' + length ''120'' = 5
   \<and> c_strtod (drop 1 (value_frame ''05'' ''120'' (CHR ''0'') (CHR ''0'')))
        = (Finite False (5764607523034235 / 1125899906842624), 6)"
proof -
  note V = field_width_checked_by_parse_value_only
    [where ip = "''05''" and fp = "''120''" and ?d1.0 = "CHR ''0''" and ?d2.0 = "CHR ''0''"]
  note T = field_width_checked_by_parse_value_only
    [where buf = partial_field_frame and dev = long_field and s = io0 and ip = "''0005''"
       and fp = "''1200''" and ?d1.0 = "CHR ''0''" and ?d2.0 = "CHR ''0''"]
  note U = field_width_checked_by_parse_value_only
    [where buf = hex_field_frame and w = "Finite False 2" and ip = "''05''" and fp = "''1''"
       and pad = "''0''"]
  have pf: "partial_field_frame = partial_frame ''05'' ''1'' ''0'' (CHR ''0'') (CHR ''0'')"
    by (simp add: partial_field_frame_def partial_frame_def)
  have a: "snd (c_strtod (drop 1 partial_field_frame)) \<noteq> 6" using strtod_partial by simp
  have b: "(\<forall>c\<in>set ''0005''. isdigit c) \<and> (\<forall>c\<in>set ''1200''. isdigit c) \<and> ''0005'' \<noteq> []
      \<and> isdigit (CHR ''0'') \<and> isdigit (CHR ''0'')
      \<and> long_field (sent io0) = Some (value_frame ''0005'' ''1200'' (CHR ''0'') (CHR ''0''))
      \<and> unread io0 = []"
    by (simp add: digit_chars long_field_def io0_def)
  have c: "(\<forall>c\<in>set ''05''. isdigit c) \<and> (\<forall>c\<in>set ''1''. isdigit c) \<and> ''05'' \<noteq> []
        \<and> length ''05'' + length ''1'' + length ''0'' = 4"
    by (simp add: digit_chars)
  have d: "length partial_field_frame = 16" by (simp add: partial_field_frame_def trailer_def)
  have e: "parse_value partial_field_frame = None"
    using T [THEN conjunct2, THEN conjunct1, THEN mp, OF a] by (rule conjunct1)
  have f: "scale_read long_field io0
            = Some (0, io0\<lparr>unread := [], sent := Suc (sent io0),
                         wp := to_float (Finite False (field_value ''0005'' ''1200'')),
                         wp_stores := Suc (wp_stores io0)\<rparr>)"
    using T [THEN conjunct2, THEN conjunct2, THEN conjunct2, THEN conjunct1, THEN mp, OF b] .
  have j: "(\<forall>c\<in>set ''05''. isdigit c) \<and> (\<forall>c\<in>set ''120''. isdigit c) \<and> ''05'' \<noteq> []
        \<and> length ''05'' + length ''120'' = 5"
    by (simp add: digit_chars)
  have k: "c_strtod (drop 1 (value_frame ''05'' ''120'' (CHR ''0'') (CHR ''0'')))
        = (Finite False (5764607523034235 / 1125899906842624), 6)"
    using V [THEN conjunct2, THEN conjunct2, THEN conjunct2, THEN conjunct2, THEN mp, OF j]
    by (simp add: field_05_120 double_05_120)
  have g: "main_decode partial_field_frame = Value_parse_error"
    using U [THEN conjunct2, THEN conjunct2, THEN conjunct1, THEN mp, OF c] pf by simp
  have h: "main_decode hex_field_frame = Weight_printed (Finite False 2)"
    by (rule main_decode_hex_frame)
  have i: "c_strtod (drop 1 hex_field_frame) = (Finite False 2, 6)"
    using U [THEN conjunct1, THEN mp, OF h] .
  show ?thesis
    using pf strtod_partial b [THEN conjunct2, THEN conjunct2, THEN conjunct2] d e f g h i k
    by (simp add: field_05_120 float_05_120 io0_def)
qed

text \<open>
  The claim as stated fails on \<^verbatim>\<open>scale_read\<close>: a frame with the nine-character field
  \<^verbatim>\<open>0005.1200\<close> is returned as a weight.
\<close>

theorem long_field_accepted_counterexample:
  "length (value_frame ''0005'' ''1200'' (CHR ''0'') (CHR ''0'')) = 19
   \<and> long_field 0 = Some (value_frame ''0005'' ''1200'' (CHR ''0'') (CHR ''0''))
   \<and> scale_read long_field io0
       = Some (0, \<lparr>unread = [], sent = 1, wp = Finite False (5368709 / 1048576), wp_stores = 1,
                    errno = None\<rparr>)"
  using read_value_frame [where dev = long_field and s = io0 and ip = "''0005''" and fp = "''1200''"
      and ?d1.0 = "CHR ''0''" and ?d2.0 = "CHR ''0''"]
  by (simp add: digit_chars long_field_def io0_def field_05_120 float_05_120 value_frame_def trailer_def)

subsection \<open>C9: what \<^verbatim>\<open>pot_init\<close> checks\<close>

text \<open>
  C9, as the code has it. With the configuration loaded, \<^verbatim>\<open>pot_init\<close> ends with
  ``undefined'' for a missing field when one of the five fields is missing; when all five
  are present, \<^verbatim>\<open>pct_err\<close> converts to an \<^verbatim>\<open>int\<close> and the scale opens, it returns the
  pot, whatever the values of \<^verbatim>\<open>full_lbs\<close> and \<^verbatim>\<open>empty_lbs\<close> are.
\<close>

theorem pot_init_fields_only:
  assumes "zhash_load filename = Some conf"
  shows "(k \<in> {''name'', ''scale_device'', ''full_lbs'', ''empty_lbs'', ''pct_err''} \<and> conf k = None
           \<longrightarrow> (\<exists>k'. k' \<in> {''name'', ''scale_device'', ''full_lbs'', ''empty_lbs'', ''pct_err''}
                  \<and> conf k' = None \<and> pot_init zhash_load scale_init filename = Inl (Undefined_key k')))
       \<and> (conf ''name'' = Some nm \<and> conf ''scale_device'' = Some dev \<and> conf ''full_lbs'' = Some f
            \<and> conf ''empty_lbs'' = Some e \<and> conf ''pct_err'' = Some pe
            \<and> c_float_to_int (fst (c_strtof pe)) = Some err \<and> scale_init dev = Some fp
           \<longrightarrow> pot_init zhash_load scale_init filename
                 = Inr \<lparr>name = nm, scaledev = dev, scale = fp, full_lbs = fst (c_strtof f),
                        empty_lbs = fst (c_strtof e), pct = 0, pct_err = err\<rparr>)"
proof (intro conjI impI)
  assume a: "k \<in> {''name'', ''scale_device'', ''full_lbs'', ''empty_lbs'', ''pct_err''} \<and> conf k = None"
  let ?K = "{''name'', ''scale_device'', ''full_lbs'', ''empty_lbs'', ''pct_err''}"
  let ?R = "\<lambda>k'. k' \<in> ?K \<and> conf k' = None \<and> pot_init zhash_load scale_init filename = Inl (Undefined_key k')"
  show "\<exists>k'. ?R k'"
  proof (cases "conf ''name''")
    case None
    then have "?R ''name''" using assms by (simp add: pot_init_def get_conf_str_def)
    then show ?thesis by blast
  next
    case n: (Some nm)
    show ?thesis
    proof (cases "conf ''scale_device''")
      case None
      then have "?R ''scale_device''" using assms n by (simp add: pot_init_def get_conf_str_def)
      then show ?thesis by blast
    next
      case d: (Some dev)
      show ?thesis
      proof (cases "conf ''full_lbs''")
        case None
        then have "?R ''full_lbs''" using assms n d
          by (simp add: pot_init_def get_conf_str_def get_conf_num_def)
        then show ?thesis by blast
      next
        case f: (Some f)
        show ?thesis
        proof (cases "conf ''empty_lbs''")
          case None
          then have "?R ''empty_lbs''" using assms n d f
            by (simp add: pot_init_def get_conf_str_def get_conf_num_def)
          then show ?thesis by blast
        next
          case e: (Some e)
          have "conf ''pct_err'' = None" using a n d f e by auto
          then have "?R ''pct_err''" using assms n d f e
            by (simp add: pot_init_def get_conf_str_def get_conf_num_def)
          then show ?thesis by blast
        qed
      qed
    qed
  qed
next
  assume "conf ''name'' = Some nm \<and> conf ''scale_device'' = Some dev \<and> conf ''full_lbs'' = Some f
            \<and> conf ''empty_lbs'' = Some e \<and> conf ''pct_err'' = Some pe
            \<and> c_float_to_int (fst (c_strtof pe)) = Some err \<and> scale_init dev = Some fp"
  then show "pot_init zhash_load scale_init filename
                 = Inr \<lparr>name = nm, scaledev = dev, scale = fp, full_lbs = fst (c_strtof f),
                        empty_lbs = fst (c_strtof e), pct = 0, pct_err = err\<rparr>"
    using assms by (simp add: pot_init_def get_conf_str_def get_conf_num_def)
qed

theorem pot_init_fields_only_witness:
  "demo_load ''pot.conf'' = Some demo_conf
   \<and> demo_conf ''name'' = Some ''pot'' \<and> demo_conf ''scale_device'' = Some ''/dev/ttyUSB0''
   \<and> demo_conf ''full_lbs'' = Some ''5'' \<and> demo_conf ''empty_lbs'' = Some ''10''
   \<and> demo_conf ''pct_err'' = Some ''5''
   \<and> c_float_to_int (fst (c_strtof ''5'')) = Some 5 \<and> demo_scale_init ''/dev/ttyUSB0'' = Some ()
   \<and> pot_init demo_load demo_scale_init ''pot.conf''
       = Inr \<lparr>name = ''pot'', scaledev = ''/dev/ttyUSB0'', scale = (), full_lbs = Finite False 5, empty_lbs = Finite False 10,
              pct = 0, pct_err = 5\<rparr>
   \<and> demo_load_incomplete ''pot.conf'' = Some demo_conf_incomplete
   \<and> ''pct_err'' \<in> {''name'', ''scale_device'', ''full_lbs'', ''empty_lbs'', ''pct_err''}
   \<and> demo_conf_incomplete ''pct_err'' = None
   \<and> pot_init demo_load_incomplete demo_scale_init ''pot.conf''
       = Inl (Undefined_key ''pct_err'')"
proof -
  have l: "demo_load ''pot.conf'' = Some demo_conf" by (simp add: demo_load_def)
  have h: "demo_conf ''name'' = Some ''pot'' \<and> demo_conf ''scale_device'' = Some ''/dev/ttyUSB0''
      \<and> demo_conf ''full_lbs'' = Some ''5'' \<and> demo_conf ''empty_lbs'' = Some ''10''
      \<and> demo_conf ''pct_err'' = Some ''5''
      \<and> c_float_to_int (fst (c_strtof ''5'')) = Some 5 \<and> demo_scale_init ''/dev/ttyUSB0'' = Some ()"
    by (simp add: demo_conf_def strtof_5 c_float_to_int_def demo_scale_init_def)
  note T1 = pot_init_fields_only [where zhash_load = demo_load and filename = "''pot.conf''"
        and conf = demo_conf and scale_init = demo_scale_init and nm = "''pot''"
        and dev = "''/dev/ttyUSB0''" and f = "''5''" and e = "''10''" and pe = "''5''"
        and err = 5 and fp = "()", OF l]
  have 1: "pot_init demo_load demo_scale_init ''pot.conf''
       = Inr \<lparr>name = ''pot'', scaledev = ''/dev/ttyUSB0'', scale = (), full_lbs = Finite False 5, empty_lbs = Finite False 10,
              pct = 0, pct_err = 5\<rparr>"
    using T1 [THEN conjunct2, THEN mp, OF h] by (simp add: strtof_5)
  have l2: "demo_load_incomplete ''pot.conf'' = Some demo_conf_incomplete"
    by (simp add: demo_load_incomplete_def)
  have m: "''pct_err'' \<in> {''name'', ''scale_device'', ''full_lbs'', ''empty_lbs'', ''pct_err''}
      \<and> demo_conf_incomplete ''pct_err'' = None"
    by (simp add: demo_conf_incomplete_def)
  note T2 = pot_init_fields_only [where zhash_load = demo_load_incomplete and filename = "''pot.conf''"
      and conf = demo_conf_incomplete and k = "''pct_err''" and scale_init = demo_scale_init, OF l2]
  from T2 [THEN conjunct1, THEN mp, OF m]
  obtain k' where k': "k' \<in> {''name'', ''scale_device'', ''full_lbs'', ''empty_lbs'', ''pct_err''}"
      "demo_conf_incomplete k' = None"
      "pot_init demo_load_incomplete demo_scale_init ''pot.conf'' = Inl (Undefined_key k')"
    by (elim exE conjE)
  have "k' = ''pct_err''"
    using k'(1,2) by (simp add: demo_conf_incomplete_def split: if_splits)
  with k'(3) have 2: "pot_init demo_load_incomplete demo_scale_init ''pot.conf''
       = Inl (Undefined_key ''pct_err'')" by simp
  show ?thesis using l h 1 l2 m 2 by simp
qed

text \<open>
  The claim as stated fails: a configuration with \<^verbatim>\<open>full_lbs\<close> 5 and \<^verbatim>\<open>empty_lbs\<close> 10 is
  accepted.
\<close>

theorem pot_init_inverted_counterexample:
  "pot_init demo_load demo_scale_init ''pot.conf''
     = Inr \<lparr>name = ''pot'', scaledev = ''/dev/ttyUSB0'', scale = (), full_lbs = Finite False 5, empty_lbs = Finite False 10,
            pct = 0, pct_err = 5\<rparr>"
  by (simp add: pot_init_def demo_load_def demo_scale_init_def demo_conf_def get_conf_str_def
      get_conf_num_def strtof_5 c_float_to_int_def)

subsection \<open>C10: the caller's weight is written on success only\<close>

text \<open>
  C10. Whenever \<^verbatim>\<open>scale_read\<close> returns, it returns from the pass that follows some number
  of passes ended by \<^verbatim>\<open>goto again\<close>, none of which touched the caller's variable, and
  the result is -1 or 0. With -1 the caller's variable is unchanged and no store was made
  to it. With 0 exactly one store was made, and the value stored is the one the first
  \<^verbatim>\<open>fscanf\<close> of that pass converted with \<^verbatim>\<open>%f\<close> from the bytes then unread and the
  answer to the last query, as it is.
\<close>

theorem scale_read_stores_weight_on_success_only:
  assumes "scale_read dev s = Some (rc, s')"
  shows "\<exists>n t. retries dev n s = Some t \<and> scale_read_pass dev t = Inl (rc, s')
           \<and> wp t = wp s \<and> wp_stores t = wp_stores s
           \<and> ((rc = - 1 \<and> wp s' = wp s \<and> wp_stores s' = wp_stores s)
              \<or> (rc = 0 \<and> wp_stores s' = Suc (wp_stores s) \<and> sent s' = Suc (sent t)
                   \<and> (\<exists>resp st. dev (sent t) = Some resp
                        \<and> fscanf fmt_value (unread t @ resp)
                            = ([FloatArg (wp s'), IntArg st], unread s'))))"
proof -
  from read_frame [OF assms] obtain n t where t: "retries dev n s = Some t"
      "scale_read_pass dev t = Inl (rc, s')" "wp t = wp s" "wp_stores t = wp_stores s"
    by blast
  from pass_return [OF t(2)] t(3,4)
  have "(rc = - 1 \<and> wp s' = wp s \<and> wp_stores s' = wp_stores s)
      \<or> (rc = 0 \<and> wp_stores s' = Suc (wp_stores s) \<and> sent s' = Suc (sent t)
           \<and> (\<exists>resp st. dev (sent t) = Some resp
                \<and> fscanf fmt_value (unread t @ resp) = ([FloatArg (wp s'), IntArg st], unread s')))"
    by simp
  with t show ?thesis by blast
qed

text \<open>
  On an over-capacity frame the variable keeps its value 7. After two status-only
  answers and the frame \<^verbatim>\<open>05.120\<close> the variable holds what \<^verbatim>\<open>%f\<close> converts from that
  frame, stored once.
\<close>

theorem scale_read_stores_weight_on_success_only_witness:
  "scale_read over_capacity (io0\<lparr>wp := Finite False 7\<rparr>)
     = Some (- 1, \<lparr>unread = [], sent = 1, wp = Finite False 7, wp_stores = 0, errno = Some ERANGE\<rparr>)
   \<and> scale_read in_motion_twice io0
     = Some (0, \<lparr>unread = [], sent = 3, wp = Finite False (5368709 / 1048576), wp_stores = 1,
                  errno = None\<rparr>)
   \<and> retries in_motion_twice 2 io0 = Some (io0\<lparr>sent := 2\<rparr>)
   \<and> fscanf fmt_value (unread (io0\<lparr>sent := 2\<rparr>) @ value_frame ''05'' ''120'' (CHR ''0'') (CHR ''0''))
       = ([FloatArg (Finite False (5368709 / 1048576)), IntArg 0], [])"
proof -
  let ?E = "\<lparr>unread = [], sent = 1, wp = Finite False 7, wp_stores = 0, errno = Some ERANGE\<rparr>"
  let ?S = "\<lparr>unread = [], sent = 3, wp = Finite False (5368709 / 1048576), wp_stores = 1, errno = None\<rparr>"
  have r: "scale_read over_capacity (io0\<lparr>wp := Finite False 7\<rparr>) = Some (- 1, ?E)"
    using read_over_frame [where dev = over_capacity and s = "io0\<lparr>wp := Finite False 7\<rparr>"
        and ?d1.0 = "CHR ''0''" and ?d2.0 = "CHR ''2''"]
    by (simp add: digit_chars over_capacity_def io0_def)
  have pre: "\<forall>k<2. \<exists>d1 d2. isdigit d1 \<and> isdigit d2
      \<and> in_motion_twice (sent io0 + k) = Some (status_frame d1 d2)"
  proof (intro allI impI)
    fix k :: nat
    assume "k < 2"
    then have "in_motion_twice (sent io0 + k) = Some (status_frame (CHR ''1'') (CHR ''0''))"
      by (simp add: in_motion_twice_def io0_def)
    with digit_chars show "\<exists>d1 d2. isdigit d1 \<and> isdigit d2
        \<and> in_motion_twice (sent io0 + k) = Some (status_frame d1 d2)"
      by blast
  qed
  have dg: "\<forall>c\<in>set ''05''. isdigit c" "\<forall>c\<in>set ''120''. isdigit c" "''05'' \<noteq> []"
      "isdigit (CHR ''0'')" "isdigit (CHR ''0'')"
    by (simp_all add: digit_chars)
  have "scale_read in_motion_twice io0
      = Some (0, io0\<lparr>unread := [], sent := sent io0 + 2 + 1,
                       wp := to_float (Finite False (field_value ''05'' ''120'')),
                       wp_stores := Suc (wp_stores io0)\<rparr>)"
    by (rule read_after_status_frames [OF dg pre]) (simp_all add: in_motion_twice_def io0_def)
  then have q: "scale_read in_motion_twice io0 = Some (0, ?S)"
    by (simp add: io0_def field_05_120 float_05_120)
  from scale_read_stores_weight_on_success_only [OF r]
  have 1: "wp ?E = wp (io0\<lparr>wp := Finite False 7\<rparr>)" by auto
  from scale_read_stores_weight_on_success_only [OF q]
  have 2: "wp_stores ?S = Suc (wp_stores io0)" by auto
  have p1: "scale_read_pass in_motion_twice io0 = Inr (io0\<lparr>sent := Suc 0\<rparr>)"
    using pass_status_frame [where dev = in_motion_twice and s = io0
        and ?d1.0 = "CHR ''1''" and ?d2.0 = "CHR ''0''"]
    by (simp add: digit_chars in_motion_twice_def io0_def)
  have p2: "scale_read_pass in_motion_twice (io0\<lparr>sent := Suc 0\<rparr>) = Inr (io0\<lparr>sent := Suc (Suc 0)\<rparr>)"
    using pass_status_frame [where dev = in_motion_twice and s = "io0\<lparr>sent := Suc 0\<rparr>"
        and ?d1.0 = "CHR ''1''" and ?d2.0 = "CHR ''0''"]
    by (simp add: digit_chars in_motion_twice_def io0_def)
  have "retries in_motion_twice (Suc (Suc 0)) io0 = Some (io0\<lparr>sent := Suc (Suc 0)\<rparr>)"
    by (simp add: p1 p2)
  then have 3: "retries in_motion_twice 2 io0 = Some (io0\<lparr>sent := 2\<rparr>)"
    by (simp add: numeral_2_eq_2)
  have 4: "fscanf fmt_value (unread (io0\<lparr>sent := 2\<rparr>) @ value_frame ''05'' ''120'' (CHR ''0'') (CHR ''0''))
       = ([FloatArg (Finite False (5368709 / 1048576)), IntArg 0], [])"
    using fscanf_value_frame [where ip = "''05''" and fp = "''120''" and ?d1.0 = "CHR ''0''"
        and ?d2.0 = "CHR ''0''"]
    by (simp add: digit_chars io0_def field_05_120 float_05_120 digits_val_def digit_val_def)
  show ?thesis using r q 1 2 3 4 by simp
qed

end
